theory Spec2Isabelle
  imports Main "HOL-Library.AList"
begin

section \<open>Strings\<close>

text \<open>
  JavaScript strings are modelled as \<^typ>\<open>string\<close>: every character is one byte, so every
  string of the model is a Latin-1 string, the only kind \<^verbatim>\<open>btoa\<close> accepts without raising.
\<close>

definition digit_char :: "nat \<Rightarrow> char" where
  "digit_char d = ''0123456789'' ! d"

text \<open>The decimal rendering of a counter inside a template literal.\<close>

fun string_of_nat :: "nat \<Rightarrow> string" where
  "string_of_nat n =
     (if n < 10 then [digit_char n] else string_of_nat (n div 10) @ [digit_char (n mod 10)])"

declare string_of_nat.simps [simp del]

text \<open>\<^verbatim>\<open>Array.prototype.join\<close> on an array of strings.\<close>

fun join :: "string \<Rightarrow> string list \<Rightarrow> string" where
  "join sep [] = []"
| "join sep [x] = x"
| "join sep (x # y # ys) = x @ sep @ join sep (y # ys)"

definition b64_alphabet :: string where
  "b64_alphabet = ''ABCDEFGHIJKLMNOPQRSTUVWXYZabcdefghijklmnopqrstuvwxyz0123456789+/''"

definition b64 :: "nat \<Rightarrow> char" where
  "b64 n = b64_alphabet ! (n mod 64)"

text \<open>\<^verbatim>\<open>btoa\<close>: standard base64 with padding, three bytes to four characters.\<close>

fun btoa :: "string \<Rightarrow> string" where
  "btoa [] = []"
| "btoa [a] =
     (let x = (of_char a :: nat)
      in [b64 (x div 4), b64 ((x mod 4) * 16), CHR ''='', CHR ''=''])"
| "btoa [a, b] =
     (let x = (of_char a :: nat); y = (of_char b :: nat)
      in [b64 (x div 4), b64 ((x mod 4) * 16 + y div 16), b64 ((y mod 16) * 4), CHR ''=''])"
| "btoa (a # b # c # more) =
     (let x = (of_char a :: nat); y = (of_char b :: nat); z = (of_char c :: nat)
      in [b64 (x div 4), b64 ((x mod 4) * 16 + y div 16),
          b64 ((y mod 16) * 4 + z div 64), b64 (z mod 64)] @ btoa more)"

text \<open>
  The cache key of \<^verbatim>\<open>css\<close>:
  \<^verbatim>\<open>btoa(cssString).replace(/[+/=]/g, '').substring(0, 8)\<close>.
\<close>

definition style_hash :: "string \<Rightarrow> string" where
  "style_hash cssString =
     take 8 (filter (\<lambda>c. c \<noteq> CHR ''+'' \<and> c \<noteq> CHR ''/'' \<and> c \<noteq> CHR ''='') (btoa cssString))"

section \<open>Values, style descriptions, nodes\<close>

text \<open>
  Primitive JavaScript values. Numbers are the integers that a number of JavaScript holds
  exactly and prints in decimal digits, those of absolute value below \<^verbatim>\<open>2 ** 53\<close>: no NaN,
  no fractions, no exponent notation. \<open>to_string\<close> is \<^verbatim>\<open>String(v)\<close> on these values.
\<close>

datatype jsval = Undefined | Null | Bool bool | Num int | Str string

fun truthy :: "jsval \<Rightarrow> bool" where
  "truthy Undefined = False"
| "truthy Null = False"
| "truthy (Bool b) = b"
| "truthy (Num n) = (n \<noteq> 0)"
| "truthy (Str s) = (s \<noteq> [])"

fun to_string :: "jsval \<Rightarrow> string" where
  "to_string Undefined = ''undefined''"
| "to_string Null = ''null''"
| "to_string (Bool b) = (if b then ''true'' else ''false'')"
| "to_string (Num n) = (if n < 0 then ''-'' @ string_of_nat (nat (- n)) else string_of_nat (nat n))"
| "to_string (Str s) = s"

text \<open>
  A style mapping in iteration order. A value is a string, or (\<^verbatim>\<open>typeof value === 'object'\<close>)
  a nested mapping of strings; leaf values are strings, so that the template literal leaves
  them as they are.
\<close>

datatype style_value = Lit string | Nested "(string \<times> string) list"

type_synonym style_map = "(string \<times> style_value) list"

text \<open>What a style function reads of the theme: \<^verbatim>\<open>theme.category.token\<close>.\<close>

type_synonym theme_view = "string \<Rightarrow> (string \<Rightarrow> string option) option"

datatype style_desc = StaticStyles style_map | StyleFn "theme_view \<Rightarrow> style_map"

text \<open>
  Functions of the program that end up stored in nodes and animations, by the closure they
  are: a function of the caller (known by a number only), \<^verbatim>\<open>handleOverlayClick\<close> with the
  \<^verbatim>\<open>onClose\<close> it captured, \<^verbatim>\<open>cleanup\<close> with the overlay and the modal element it captured, and
  the \<^verbatim>\<open>onfinish\<close> handler of the overlay's exit animation.
\<close>

datatype callback =
    UserFn nat
  | HandleOverlayClick "nat option"
  | Cleanup nat nat
  | OverlayAnimFinish nat

text \<open>
  What a function is called with: an event (its \<^verbatim>\<open>target\<close> and its \<^verbatim>\<open>currentTarget\<close>), an
  element, or nothing.
\<close>

datatype arg = EventArg nat nat | ElementArg nat | NoArg

datatype prop_value = PVal jsval | PFunc callback

datatype dom_child = TextNode string | ElementNode nat

record element =
  tag :: string
  el_className :: string
  el_style :: "(string \<times> string) list"
  el_dataset :: "(string \<times> string) list"
  listeners :: "(string \<times> callback) list"
  properties :: "(string \<times> prop_value) list"
  childNodes :: "dom_child list"
  parentNode :: "nat option"

record animation =
  target :: nat
  keyframes :: "(string \<times> string) list list"
  duration :: nat
  easing :: string
  fill :: string
  onfinish :: "callback option"
  finished :: bool

section \<open>The state of the module\<close>

text \<open>
  The closure of the module holds \<^verbatim>\<open>activeTheme\<close>, \<^verbatim>\<open>styleCache\<close>, \<^verbatim>\<open>uniqueId\<close> and
  \<^verbatim>\<open>styleSheet\<close>. Theme objects are shared by reference, so they live in a store: a theme
  object maps a category to the address of a category object, a category object maps a
  token to its value. The document is a store of elements; element \<open>0\<close> is
  \<^verbatim>\<open>document.body\<close>. \<open>calls\<close> is the trace of the caller's functions the module has invoked,
  each with its argument.
\<close>

record zen =
  themeObjs :: "nat \<Rightarrow> (string \<Rightarrow> nat option)"
  categoryObjs :: "nat \<Rightarrow> (string \<Rightarrow> string option)"
  nextObj :: nat
  activeTheme :: nat
  styleCache :: "string \<Rightarrow> string option"
  uniqueId :: nat
  cssRules :: "string list"
  nodes :: "nat \<Rightarrow> element"
  nextNode :: nat
  animations :: "animation list"
  calls :: "(nat \<times> arg) list"

definition theme_categories :: "string list" where
  "theme_categories =
     [''colors'', ''spacing'', ''typography'', ''borderRadius'', ''shadows'', ''transitions'']"

definition default_colors :: "(string \<times> string) list" where
  "default_colors =
     [(''primary'', ''#4a6cf7''), (''secondary'', ''#6c757d''), (''success'', ''#28a745''),
      (''danger'', ''#dc3545''), (''warning'', ''#ffc107''), (''info'', ''#17a2b8''),
      (''light'', ''#f8f9fa''), (''dark'', ''#343a40''), (''background'', ''#ffffff''),
      (''text'', ''#212529''), (''border'', ''#dee2e6'')]"

definition default_spacing :: "(string \<times> string) list" where
  "default_spacing =
     [(''xs'', ''0.25rem''), (''sm'', ''0.5rem''), (''md'', ''1rem''), (''lg'', ''1.5rem''),
      (''xl'', ''2rem'')]"

definition default_typography :: "(string \<times> string) list" where
  \<open>default_typography =
     [(''fontFamily'',
       ''-apple-system, BlinkMacSystemFont, "Segoe UI", Roboto, Helvetica, Arial, sans-serif''),
      (''fontSize'', ''16px''), (''lineHeight'', ''1.5'')]\<close>

definition default_borderRadius :: "(string \<times> string) list" where
  "default_borderRadius =
     [(''sm'', ''0.25rem''), (''md'', ''0.375rem''), (''lg'', ''0.5rem''), (''pill'', ''50rem'')]"

definition default_shadows :: "(string \<times> string) list" where
  "default_shadows =
     [(''sm'', ''0 1px 2px rgba(0, 0, 0, 0.05)''), (''md'', ''0 4px 6px rgba(0, 0, 0, 0.1)''),
      (''lg'', ''0 10px 15px rgba(0, 0, 0, 0.1)'')]"

definition default_transitions :: "(string \<times> string) list" where
  "default_transitions =
     [(''default'', ''all 0.2s ease-in-out''), (''fast'', ''all 0.1s ease-in-out''),
      (''slow'', ''all 0.3s ease-in-out'')]"

text \<open>\<^verbatim>\<open>defaultTheme\<close> is the theme object at address 0; its categories are at 1 to 6.\<close>

definition defaultTheme :: nat where
  "defaultTheme = 0"

definition default_theme_obj :: "string \<Rightarrow> nat option" where
  "default_theme_obj =
     map_of [(''colors'', 1), (''spacing'', 2), (''typography'', 3), (''borderRadius'', 4),
             (''shadows'', 5), (''transitions'', 6)]"

definition empty_element :: "string \<Rightarrow> element" where
  "empty_element t =
     \<lparr>tag = t, el_className = [], el_style = [], el_dataset = [], listeners = [],
      properties = [], childNodes = [], parentNode = None\<rparr>"

text \<open>
  The state once the module is loaded: \<^verbatim>\<open>activeTheme = { ...defaultTheme }\<close> is a new theme
  object (address 7) holding the addresses of the default categories, the cache and the
  style sheet are empty.
\<close>

definition initial :: zen where
  "initial =
     \<lparr>themeObjs = (\<lambda>_. Map.empty)(0 := default_theme_obj, 7 := default_theme_obj),
      categoryObjs = (\<lambda>_. Map.empty)
        (1 := map_of default_colors, 2 := map_of default_spacing,
         3 := map_of default_typography, 4 := map_of default_borderRadius,
         5 := map_of default_shadows, 6 := map_of default_transitions),
      nextObj = 8,
      activeTheme = 7,
      styleCache = Map.empty,
      uniqueId = 0,
      cssRules = [],
      nodes = (\<lambda>_. empty_element []) (0 := empty_element ''body''),
      nextNode = 1,
      animations = [],
      calls = []\<rparr>"

section \<open>Theme store\<close>

text \<open>\<^verbatim>\<open>...obj.category\<close>, and \<^verbatim>\<open>...(obj.category || {})\<close>: nothing when the category is absent.\<close>

definition spread_category :: "zen \<Rightarrow> (string \<Rightarrow> nat option) \<Rightarrow> string \<Rightarrow> (string \<Rightarrow> string option)" where
  "spread_category s obj c = (case obj c of None \<Rightarrow> Map.empty | Some r \<Rightarrow> categoryObjs s r)"

text \<open>
  \<^verbatim>\<open>setTheme(newTheme)\<close>, with \<open>newTheme\<close> the address of the caller's theme object: six new
  category objects and one new theme object are allocated, the cache is cleared, the new
  \<^verbatim>\<open>activeTheme\<close> itself is returned.
\<close>

definition setTheme :: "nat \<Rightarrow> zen \<Rightarrow> nat \<times> zen" where
  "setTheme newTheme s =
     (let old = themeObjs s (activeTheme s);
          new = themeObjs s newTheme;
          a = nextObj s;
          merged = (\<lambda>c. spread_category s old c ++ spread_category s new c);
          theme = (old ++ new)
            (''colors'' \<mapsto> a, ''spacing'' \<mapsto> a + 1, ''typography'' \<mapsto> a + 2,
             ''borderRadius'' \<mapsto> a + 3, ''shadows'' \<mapsto> a + 4, ''transitions'' \<mapsto> a + 5)
      in (a + 6,
          s\<lparr>categoryObjs := (categoryObjs s)
               (a := merged ''colors'', a + 1 := merged ''spacing'',
                a + 2 := merged ''typography'', a + 3 := merged ''borderRadius'',
                a + 4 := merged ''shadows'', a + 5 := merged ''transitions''),
            themeObjs := (themeObjs s)(a + 6 := theme),
            nextObj := a + 7,
            activeTheme := a + 6,
            styleCache := Map.empty\<rparr>))"

text \<open>\<^verbatim>\<open>getTheme()\<close>: \<^verbatim>\<open>{ ...activeTheme }\<close>, a new theme object with the same category addresses.\<close>

definition getTheme :: "zen \<Rightarrow> nat \<times> zen" where
  "getTheme s =
     (nextObj s,
      s\<lparr>themeObjs := (themeObjs s)(nextObj s := themeObjs s (activeTheme s)),
        nextObj := nextObj s + 1\<rparr>)"

definition resetTheme :: "zen \<Rightarrow> nat \<times> zen" where
  "resetTheme s =
     (nextObj s,
      s\<lparr>themeObjs := (themeObjs s)(nextObj s := themeObjs s defaultTheme),
        nextObj := nextObj s + 1,
        activeTheme := nextObj s,
        styleCache := Map.empty\<rparr>)"

text \<open>The theme an address stands for, read through the store.\<close>

definition theme_at :: "zen \<Rightarrow> nat \<Rightarrow> theme_view" where
  "theme_at s a = (\<lambda>c. map_option (categoryObjs s) (themeObjs s a c))"

section \<open>Style engine\<close>

definition createUniqueId :: "string \<Rightarrow> zen \<Rightarrow> string \<times> zen" where
  "createUniqueId prefix s =
     (prefix @ ''-'' @ string_of_nat (uniqueId s), s\<lparr>uniqueId := uniqueId s + 1\<rparr>)"

definition css_entry :: "string \<times> style_value \<Rightarrow> string" where
  "css_entry kv =
     (case kv of
        (key, Nested value) \<Rightarrow>
          key @ '' { '' @ join '' '' (map (\<lambda>(nestedKey, nestedValue). nestedKey @ '': '' @ nestedValue @ '';'') value) @ '' }''
      | (key, Lit value) \<Rightarrow> key @ '': '' @ value @ '';'')"

definition processedStyles :: "style_desc \<Rightarrow> zen \<Rightarrow> style_map" where
  "processedStyles styles s =
     (case styles of
        StyleFn f \<Rightarrow> f (theme_at s (activeTheme s))
      | StaticStyles m \<Rightarrow> m)"

definition cssString :: "style_desc \<Rightarrow> zen \<Rightarrow> string" where
  "cssString styles s = join '' '' (map css_entry (processedStyles styles s))"

text \<open>
  \<^verbatim>\<open>css(styles)\<close>. The style sheet exists from the load of the module on (\<^verbatim>\<open>initStyles\<close>), and
  \<^verbatim>\<open>insertRule(rule, cssRules.length)\<close> appends the rule text.
\<close>

definition css :: "style_desc \<Rightarrow> zen \<Rightarrow> string \<times> zen" where
  "css styles s =
     (let text = cssString styles s;
          hash = style_hash text
      in case styleCache s hash of
           None \<Rightarrow>
             (let (className, s1) = createUniqueId ''zen-style'' s;
                  s2 = s1\<lparr>styleCache := (styleCache s1)(hash \<mapsto> className)\<rparr>;
                  rule = ''.'' @ className @ '' { '' @ text @ '' }''
              in (className, s2\<lparr>cssRules := cssRules s2 @ [rule]\<rparr>))
         | Some className \<Rightarrow> (className, s))"

text \<open>The selector of a rule \<^verbatim>\<open>.name { ... }\<close> of the style sheet, and the names \<^verbatim>\<open>css\<close> mints.\<close>

definition rule_class :: "string \<Rightarrow> string" where
  "rule_class rule = takeWhile (\<lambda>c. c \<noteq> CHR '' '') (tl rule)"

definition style_class :: "nat \<Rightarrow> string" where
  "style_class i = ''zen-style-'' @ string_of_nat i"

definition nat_of_string :: "string \<Rightarrow> nat" where
  "nat_of_string cs = foldl (\<lambda>a c. 10 * a + (of_char c - 48)) 0 cs"

text \<open>A sequence of calls of \<^verbatim>\<open>css\<close>.\<close>

fun css_all :: "style_desc list \<Rightarrow> zen \<Rightarrow> zen" where
  "css_all [] s = s"
| "css_all (d # ds) s = css_all ds (snd (css d s))"

section \<open>What a caller does with theme objects\<close>

datatype error = TypeError

text \<open>The object literals of a caller: \<^verbatim>\<open>{primary: x}\<close> and \<^verbatim>\<open>{colors: ...}\<close>.\<close>

definition new_category :: "(string \<times> string) list \<Rightarrow> zen \<Rightarrow> nat \<times> zen" where
  "new_category tokens s =
     (nextObj s,
      s\<lparr>categoryObjs := (categoryObjs s)(nextObj s := map_of tokens), nextObj := nextObj s + 1\<rparr>)"

definition new_theme :: "(string \<times> nat) list \<Rightarrow> zen \<Rightarrow> nat \<times> zen" where
  "new_theme categories s =
     (nextObj s,
      s\<lparr>themeObjs := (themeObjs s)(nextObj s := map_of categories), nextObj := nextObj s + 1\<rparr>)"

text \<open>\<^verbatim>\<open>t[c][k] = v\<close> on a theme object \<open>t\<close>; it raises when \<open>t\<close> has no category \<open>c\<close>.\<close>

definition assign_token :: "nat \<Rightarrow> string \<Rightarrow> string \<Rightarrow> string \<Rightarrow> zen \<Rightarrow> error + zen" where
  "assign_token t c k v s =
     (case themeObjs s t c of
        None \<Rightarrow> Inl TypeError
      | Some r \<Rightarrow> Inr (s\<lparr>categoryObjs := (categoryObjs s)(r := (categoryObjs s r)(k \<mapsto> v))\<rparr>))"

text \<open>\<^verbatim>\<open>t[c][k]\<close> as a reader sees it.\<close>

definition theme_token :: "zen \<Rightarrow> nat \<Rightarrow> string \<Rightarrow> string \<Rightarrow> string option" where
  "theme_token s a c k = (case theme_at s a c of None \<Rightarrow> None | Some m \<Rightarrow> m k)"

text \<open>The state in which a caller has built \<^verbatim>\<open>{colors: {primary: '#ff0000'}}\<close>, at address 9.\<close>

definition primary_red :: zen where
  "primary_red =
     snd (new_theme [(''colors'', 8)] (snd (new_category [(''primary'', ''#ff0000'')] initial)))"

section \<open>The document\<close>

text \<open>
  The part of the render surface the module uses. \<^verbatim>\<open>appendChild\<close> moves a node that already
  has a parent; its check against cycles is left out, since the module only ever appends to
  an element it has just created, or to \<^verbatim>\<open>document.body\<close>.
\<close>

definition document_body :: nat where
  "document_body = 0"

definition document_createElement :: "string \<Rightarrow> zen \<Rightarrow> nat \<times> zen" where
  "document_createElement t s =
     (nextNode s, s\<lparr>nodes := (nodes s)(nextNode s := empty_element t), nextNode := nextNode s + 1\<rparr>)"

definition update_node :: "nat \<Rightarrow> (element \<Rightarrow> element) \<Rightarrow> zen \<Rightarrow> zen" where
  "update_node n f s = s\<lparr>nodes := (nodes s)(n := f (nodes s n))\<rparr>"

definition is_space :: "char \<Rightarrow> bool" where
  "is_space c = (c = CHR '' '' \<or> c = CHR 0x09 \<or> c = CHR 0x0A \<or> c = CHR 0x0C \<or> c = CHR 0x0D)"

fun tokens_from :: "string \<Rightarrow> string \<Rightarrow> string list" where
  "tokens_from cur [] = (if cur = [] then [] else [cur])"
| "tokens_from cur (c # cs) =
     (if is_space c then (if cur = [] then tokens_from [] cs else cur # tokens_from [] cs)
      else tokens_from (cur @ [c]) cs)"

text \<open>\<^verbatim>\<open>element.classList\<close>: the classes of the class attribute, each once, in order.\<close>

definition classList :: "element \<Rightarrow> string list" where
  "classList e = rev (remdups (rev (tokens_from [] (el_className e))))"

text \<open>\<^verbatim>\<open>element.classList.add(c)\<close>, for a class without white space.\<close>

definition classList_add :: "string \<Rightarrow> element \<Rightarrow> element" where
  "classList_add c e =
     e\<lparr>el_className := join '' '' (if c \<in> set (classList e) then classList e else classList e @ [c])\<rparr>"

definition removeChild :: "nat \<Rightarrow> nat \<Rightarrow> zen \<Rightarrow> zen" where
  "removeChild p c s =
     update_node c (\<lambda>e. e\<lparr>parentNode := None\<rparr>)
       (update_node p (\<lambda>e. e\<lparr>childNodes := removeAll (ElementNode c) (childNodes e)\<rparr>) s)"

definition appendChild :: "nat \<Rightarrow> dom_child \<Rightarrow> zen \<Rightarrow> zen" where
  "appendChild p child s =
     (case child of
        TextNode t \<Rightarrow> update_node p (\<lambda>e. e\<lparr>childNodes := childNodes e @ [TextNode t]\<rparr>) s
      | ElementNode c \<Rightarrow>
          (let s1 = (case parentNode (nodes s c) of None \<Rightarrow> s | Some q \<Rightarrow> removeChild q c s)
           in update_node c (\<lambda>e. e\<lparr>parentNode := Some p\<rparr>)
                (update_node p (\<lambda>e. e\<lparr>childNodes := childNodes e @ [ElementNode c]\<rparr>) s1)))"

text \<open>\<^verbatim>\<open>element.textContent = t\<close>: the children go, one text node comes unless \<open>t\<close> is empty.\<close>

definition set_textContent :: "nat \<Rightarrow> string \<Rightarrow> zen \<Rightarrow> zen" where
  "set_textContent n t s =
     update_node n (\<lambda>e. e\<lparr>childNodes := (if t = [] then [] else [TextNode t])\<rparr>)
       (fold (\<lambda>k s'. case k of
                 ElementNode c \<Rightarrow> update_node c (\<lambda>e. e\<lparr>parentNode := None\<rparr>) s'
               | TextNode _ \<Rightarrow> s')
          (childNodes (nodes s n)) s)"

text \<open>\<^verbatim>\<open>addEventListener\<close>: a listener already there for the event is not added again.\<close>

definition addEventListener :: "nat \<Rightarrow> string \<Rightarrow> callback \<Rightarrow> zen \<Rightarrow> zen" where
  "addEventListener n name f s =
     update_node n
       (\<lambda>e. if (name, f) \<in> set (listeners e) then e else e\<lparr>listeners := listeners e @ [(name, f)]\<rparr>) s"

text \<open>
  \<^verbatim>\<open>element[key] = value\<close> for a key the document gives no meaning of its own: the value
  is stored and nothing else happens. A key whose assignment changes the tree, such as
  \<^verbatim>\<open>textContent\<close> or \<^verbatim>\<open>innerHTML\<close>, is outside the model.
\<close>

definition set_property :: "nat \<Rightarrow> string \<Rightarrow> prop_value \<Rightarrow> zen \<Rightarrow> zen" where
  "set_property n key v s = update_node n (\<lambda>e. e\<lparr>properties := AList.update key v (properties e)\<rparr>) s"

text \<open>
  \<^verbatim>\<open>toLowerCase\<close> on the characters of Latin-1: the capital letters of ASCII, and the
  capital letters from \<^verbatim>\<open>U+00C0\<close> to \<^verbatim>\<open>U+00DE\<close>, of which \<^verbatim>\<open>U+00D7\<close>, the sign of
  multiplication, is none.
\<close>

definition upper_case :: string where
  "upper_case =
     ''ABCDEFGHIJKLMNOPQRSTUVWXYZ'' @
     [CHR 0xC0, CHR 0xC1, CHR 0xC2, CHR 0xC3, CHR 0xC4, CHR 0xC5, CHR 0xC6, CHR 0xC7,
      CHR 0xC8, CHR 0xC9, CHR 0xCA, CHR 0xCB, CHR 0xCC, CHR 0xCD, CHR 0xCE, CHR 0xCF,
      CHR 0xD0, CHR 0xD1, CHR 0xD2, CHR 0xD3, CHR 0xD4, CHR 0xD5, CHR 0xD6,
      CHR 0xD8, CHR 0xD9, CHR 0xDA, CHR 0xDB, CHR 0xDC, CHR 0xDD, CHR 0xDE]"

definition lower_case :: string where
  "lower_case =
     ''abcdefghijklmnopqrstuvwxyz'' @
     [CHR 0xE0, CHR 0xE1, CHR 0xE2, CHR 0xE3, CHR 0xE4, CHR 0xE5, CHR 0xE6, CHR 0xE7,
      CHR 0xE8, CHR 0xE9, CHR 0xEA, CHR 0xEB, CHR 0xEC, CHR 0xED, CHR 0xEE, CHR 0xEF,
      CHR 0xF0, CHR 0xF1, CHR 0xF2, CHR 0xF3, CHR 0xF4, CHR 0xF5, CHR 0xF6,
      CHR 0xF8, CHR 0xF9, CHR 0xFA, CHR 0xFB, CHR 0xFC, CHR 0xFD, CHR 0xFE]"

definition to_lower :: "char \<Rightarrow> char" where
  "to_lower c = (case map_of (zip upper_case lower_case) c of None \<Rightarrow> c | Some l \<Rightarrow> l)"

section \<open>Animation\<close>

record anim_options =
  opt_duration :: "nat option"
  opt_easing :: "string option"
  opt_fill :: "string option"

text \<open>
  \<^verbatim>\<open>animate(element, keyframes, options)\<close>: \<open>None\<close> for an argument is \<^verbatim>\<open>null\<close> or
  \<^verbatim>\<open>undefined\<close>, and the handle is the index of the animation.
\<close>

definition animate :: "nat option \<Rightarrow> (string \<times> string) list list option \<Rightarrow> anim_options \<Rightarrow> zen \<Rightarrow> nat option \<times> zen" where
  "animate element frames options s =
     (case (element, frames) of
        (Some el, Some kf) \<Rightarrow>
          (Some (length (animations s)),
           s\<lparr>animations := animations s @
               [\<lparr>target = el, keyframes = kf,
                 duration = (case opt_duration options of None \<Rightarrow> 200 | Some d \<Rightarrow> d),
                 easing = (case opt_easing options of None \<Rightarrow> ''ease-in-out'' | Some e \<Rightarrow> e),
                 fill = (case opt_fill options of None \<Rightarrow> ''forwards'' | Some f \<Rightarrow> f),
                 onfinish = None, finished = False\<rparr>]\<rparr>)
      | _ \<Rightarrow> (None, s))"

definition duration_200 :: anim_options where
  "duration_200 = \<lparr>opt_duration = Some 200, opt_easing = None, opt_fill = None\<rparr>"

text \<open>
  \<^verbatim>\<open>cleanup\<close> of a modal, a closure over \<open>overlay\<close> and \<open>modalElement\<close>. Both calls of
  \<^verbatim>\<open>animate\<close> are given an element and key frames, so \<open>overlayAnim\<close> is a handle and the
  assignment to its \<^verbatim>\<open>onfinish\<close> cannot raise.
\<close>

definition cleanup :: "nat \<Rightarrow> nat \<Rightarrow> zen \<Rightarrow> zen" where
  "cleanup overlay modalElement s =
     (if parentNode (nodes s overlay) \<noteq> None then
        (let (overlayAnim, s1) =
               animate (Some overlay) (Some [[(''opacity'', ''1'')], [(''opacity'', ''0'')]]) duration_200 s;
             (modalAnim, s2) =
               animate (Some modalElement)
                 (Some [[(''transform'', ''scale(1)''), (''opacity'', ''1'')],
                        [(''transform'', ''scale(0.9)''), (''opacity'', ''0'')]]) duration_200 s1
         in case overlayAnim of
              None \<Rightarrow> s2
            | Some a \<Rightarrow>
                s2\<lparr>animations := (animations s2)
                     [a := (animations s2 ! a)\<lparr>onfinish := Some (OverlayAnimFinish overlay)\<rparr>]\<rparr>)
      else s)"

text \<open>
  Calling a function. A function of the caller is recorded in the trace, and what it does
  next is a later event. \<^verbatim>\<open>handleOverlayClick\<close> and the \<^verbatim>\<open>onfinish\<close> handler are reachable
  through the document only, so the former is given an event.
\<close>

fun invoke :: "callback \<Rightarrow> arg \<Rightarrow> zen \<Rightarrow> zen" where
  "invoke (UserFn f) a s = s\<lparr>calls := calls s @ [(f, a)]\<rparr>"
| "invoke (HandleOverlayClick onClose) a s =
     (case a of
        EventArg e_target e_currentTarget \<Rightarrow>
          (case onClose of
             Some f \<Rightarrow> if e_target = e_currentTarget then s\<lparr>calls := calls s @ [(f, NoArg)]\<rparr> else s
           | None \<Rightarrow> s)
      | _ \<Rightarrow> s)"
| "invoke (Cleanup overlay modalElement) a s = cleanup overlay modalElement s"
| "invoke (OverlayAnimFinish overlay) a s =
     (case parentNode (nodes s overlay) of
        Some p \<Rightarrow> removeChild p overlay s
      | None \<Rightarrow> s)"

section \<open>Element builder\<close>

text \<open>
  The properties \<^verbatim>\<open>createElement\<close> takes apart: \<^verbatim>\<open>className\<close> is a value or an array of
  values, \<^verbatim>\<open>children\<close> a value, a node or an array of values and nodes; an absent property
  is \<open>Undefined\<close> or \<open>None\<close>. \<open>rest\<close> holds the other properties in the order of the object.
\<close>

datatype class_prop = ClassVal jsval | ClassArr "jsval list"

datatype child = Prim jsval | Node nat

datatype children_prop = Single child | Many "child list"

record rest_props =
  className :: class_prop
  style :: "(string \<times> string) list option"
  dataset :: "(string \<times> string) list option"
  cssStyles :: "style_desc option"
  rest :: "(string \<times> prop_value) list"

record props = rest_props +
  children :: children_prop

definition apply_className :: "class_prop \<Rightarrow> nat \<Rightarrow> zen \<Rightarrow> zen" where
  "apply_className cn el s =
     (case cn of
        ClassArr xs \<Rightarrow>
          update_node el (\<lambda>e. e\<lparr>el_className := join '' '' (map to_string (filter truthy xs))\<rparr>) s
      | ClassVal v \<Rightarrow>
          if truthy v then update_node el (\<lambda>e. e\<lparr>el_className := to_string v\<rparr>) s else s)"

definition apply_rest :: "nat \<Rightarrow> string \<times> prop_value \<Rightarrow> zen \<Rightarrow> zen" where
  "apply_rest el kv s =
     (case kv of
        (key, PFunc f) \<Rightarrow>
          if take 2 key = ''on'' then addEventListener el (map to_lower (drop 2 key)) f s
          else if key = ''ref'' then invoke f (ElementArg el) s
          else set_property el key (PFunc f) s
      | (key, PVal v) \<Rightarrow> set_property el key (PVal v) s)"

text \<open>The loop over an array of children; appending what is no node and no string raises.\<close>

fun append_children :: "child list \<Rightarrow> nat \<Rightarrow> zen \<Rightarrow> (error + unit) \<times> zen" where
  "append_children [] el s = (Inr (), s)"
| "append_children (Node n # cs) el s = append_children cs el (appendChild el (ElementNode n) s)"
| "append_children (Prim v # cs) el s =
     (if truthy v then
        (case v of
           Str t \<Rightarrow> append_children cs el (appendChild el (TextNode t) s)
         | _ \<Rightarrow> (Inl TypeError, s))
      else append_children cs el s)"

definition apply_children :: "children_prop \<Rightarrow> nat \<Rightarrow> zen \<Rightarrow> (error + unit) \<times> zen" where
  "apply_children ch el s =
     (case ch of
        Many cs \<Rightarrow> append_children cs el s
      | Single (Node n) \<Rightarrow> (Inr (), appendChild el (ElementNode n) s)
      | Single (Prim v) \<Rightarrow>
          if truthy v then
            (case v of
               Str t \<Rightarrow> (Inr (), set_textContent el t s)
             | _ \<Rightarrow> (Inl TypeError, s))
          else (Inr (), s))"

definition apply_cssStyles :: "style_desc option \<Rightarrow> nat \<Rightarrow> zen \<Rightarrow> zen" where
  "apply_cssStyles cs el s =
     (case cs of
        None \<Rightarrow> s
      | Some styles \<Rightarrow>
          (let (generatedClass, s') = css styles s
           in update_node el (classList_add generatedClass) s'))"

text \<open>
  \<^verbatim>\<open>Object.assign(element.style, style)\<close>, for declarations the render surface accepts: a
  value it would drop as invalid is stored like any other.
\<close>

definition apply_style :: "(string \<times> string) list option \<Rightarrow> nat \<Rightarrow> zen \<Rightarrow> zen" where
  "apply_style st el s =
     (case st of
        None \<Rightarrow> s
      | Some kvs \<Rightarrow>
          update_node el (\<lambda>e. e\<lparr>el_style := fold (\<lambda>(k, v). AList.update k v) kvs (el_style e)\<rparr>) s)"

text \<open>
  \<^verbatim>\<open>element.dataset[key] = value\<close> for every entry, for keys that name a data attribute: a
  key with a hyphen before a lower-case letter, for which the assignment raises, is outside
  the model.
\<close>

definition apply_dataset :: "(string \<times> string) list option \<Rightarrow> nat \<Rightarrow> zen \<Rightarrow> zen" where
  "apply_dataset d el s =
     (case d of
        None \<Rightarrow> s
      | Some kvs \<Rightarrow>
          update_node el (\<lambda>e. e\<lparr>el_dataset := fold (\<lambda>(k, v). AList.update k v) kvs (el_dataset e)\<rparr>) s)"

text \<open>
  \<^verbatim>\<open>createElement(tag, props)\<close>, step by step in the order of the source: first all that
  comes before the children, then the children.
\<close>

definition configure_element :: "string \<Rightarrow> props \<Rightarrow> zen \<Rightarrow> nat \<times> zen" where
  "configure_element t p s =
     (let (element, s1) = document_createElement t s;
          s2 = apply_cssStyles (cssStyles p) element s1;
          s3 = apply_className (className p) element s2;
          s4 = apply_style (style p) element s3;
          s5 = apply_dataset (dataset p) element s4;
          s6 = fold (apply_rest element) (rest p) s5
      in (element, s6))"

definition createElement :: "string \<Rightarrow> props \<Rightarrow> zen \<Rightarrow> (error + nat) \<times> zen" where
  "createElement t p s =
     (let (element, s6) = configure_element t p s;
          (r, s7) = apply_children (children p) element s6
      in (case r of Inl e \<Rightarrow> (Inl e, s7) | Inr _ \<Rightarrow> (Inr element, s7)))"

text \<open>Properties with nothing but the given ones.\<close>

definition no_props :: props where
  "no_props =
     \<lparr>className = ClassVal Undefined, style = None, dataset = None, cssStyles = None, rest = [],
      children = Single (Prim Undefined)\<rparr>"

section \<open>Component factory and the modal\<close>

definition createComponent :: "('p \<Rightarrow> 'r) \<Rightarrow> 'p \<Rightarrow> 'r" where
  "createComponent renderFn p = renderFn p"

text \<open>
  \<^verbatim>\<open>theme.category.token\<close> inside a template literal or as a value. Every theme that
  \<^verbatim>\<open>setTheme\<close> and \<^verbatim>\<open>resetTheme\<close> build has the six categories, the only ones the styles
  of the module read; a token that is not there reads as \<^verbatim>\<open>undefined\<close>. The read of a
  category that is not there, which raises in the source, does not occur on such a theme,
  and is given the same text here.
\<close>

definition token :: "theme_view \<Rightarrow> string \<Rightarrow> string \<Rightarrow> string" where
  "token theme c k =
     (case theme c of
        None \<Rightarrow> ''undefined''
      | Some m \<Rightarrow> (case m k of None \<Rightarrow> ''undefined'' | Some v \<Rightarrow> v))"

text \<open>\<^verbatim>\<open>{ ...a, ...b }\<close> on style mappings.\<close>

definition spread :: "style_map \<Rightarrow> style_map \<Rightarrow> style_map" where
  "spread a b = fold (\<lambda>(k, v). AList.update k v) b a"

definition overlayStyles :: style_desc where
  "overlayStyles = StyleFn (\<lambda>theme.
     [(''position'', Lit ''fixed''), (''top'', Lit ''0''), (''left'', Lit ''0''),
      (''right'', Lit ''0''), (''bottom'', Lit ''0''),
      (''backgroundColor'', Lit ''rgba(0, 0, 0, 0.5)''), (''display'', Lit ''flex''),
      (''alignItems'', Lit ''center''), (''justifyContent'', Lit ''center''),
      (''zIndex'', Lit ''1000'')])"

definition sizeMap :: "string \<Rightarrow> style_map" where
  "sizeMap sz =
     (if sz = ''small'' then [(''width'', Lit ''300px'')]
      else if sz = ''medium'' then [(''width'', Lit ''500px'')]
      else if sz = ''large'' then [(''width'', Lit ''800px'')]
      else if sz = ''fullscreen'' then [(''width'', Lit ''95vw''), (''height'', Lit ''95vh'')]
      else [])"

definition getModalStyles :: "string \<Rightarrow> style_desc" where
  "getModalStyles sz = StyleFn (\<lambda>theme.
     spread
       [(''backgroundColor'', Lit (token theme ''colors'' ''background'')),
        (''borderRadius'', Lit (token theme ''borderRadius'' ''md'')),
        (''boxShadow'', Lit (token theme ''shadows'' ''lg'')),
        (''display'', Lit ''flex''), (''flexDirection'', Lit ''column''),
        (''maxHeight'', Lit ''90vh''), (''overflow'', Lit ''hidden''),
        (''position'', Lit ''relative''), (''zIndex'', Lit ''1001'')]
       (sizeMap sz))"

definition modalHeaderStyles :: style_desc where
  "modalHeaderStyles = StyleFn (\<lambda>theme.
     [(''display'', Lit ''flex''), (''justifyContent'', Lit ''space-between''),
      (''alignItems'', Lit ''center''), (''padding'', Lit (token theme ''spacing'' ''md'')),
      (''borderBottom'', Lit (''1px solid '' @ token theme ''colors'' ''border''))])"

definition modalTitleStyles :: style_desc where
  "modalTitleStyles = StyleFn (\<lambda>theme.
     [(''margin'', Lit ''0''), (''fontWeight'', Lit ''bold''), (''fontSize'', Lit ''1.25rem'')])"

definition closeButtonStyles :: style_desc where
  "closeButtonStyles = StyleFn (\<lambda>theme.
     [(''background'', Lit ''none''), (''border'', Lit ''none''), (''cursor'', Lit ''pointer''),
      (''fontSize'', Lit ''1.5rem''), (''lineHeight'', Lit ''1''), (''padding'', Lit ''0''),
      (''color'', Lit (token theme ''colors'' ''secondary'')),
      (''&:hover'', Nested [(''color'', token theme ''colors'' ''dark'')])])"

definition modalContentStyles :: style_desc where
  "modalContentStyles = StyleFn (\<lambda>theme.
     [(''flex'', Lit ''1 1 auto''), (''padding'', Lit (token theme ''spacing'' ''md'')),
      (''overflowY'', Lit ''auto'')])"

definition modalFooterStyles :: style_desc where
  "modalFooterStyles = StyleFn (\<lambda>theme.
     [(''padding'', Lit (token theme ''spacing'' ''md'')),
      (''borderTop'', Lit (''1px solid '' @ token theme ''colors'' ''border'')),
      (''display'', Lit ''flex''), (''justifyContent'', Lit ''flex-end''),
      (''gap'', Lit (token theme ''spacing'' ''sm''))])"

text \<open>
  The properties of \<^verbatim>\<open>Modal\<close>. \<open>onClose\<close> is a function of the caller or absent;
  \<open>modal_rest\<close> holds the remaining properties, which are spread last into the properties
  of the modal element.
\<close>

record modal_props =
  title :: child
  content :: children_prop
  footer :: children_prop
  isOpen :: bool
  onClose :: "nat option"
  size :: string
  modal_children :: children_prop
  modal_rest :: rest_props

fun truthy_child :: "child \<Rightarrow> bool" where
  "truthy_child (Prim v) = truthy v"
| "truthy_child (Node n) = True"

fun truthy_children :: "children_prop \<Rightarrow> bool" where
  "truthy_children (Single c) = truthy_child c"
| "truthy_children (Many cs) = True"

text \<open>Sequencing of calls that may raise.\<close>

definition and_then :: "(error + 'a) \<times> zen \<Rightarrow> ('a \<Rightarrow> zen \<Rightarrow> (error + 'b) \<times> zen) \<Rightarrow> (error + 'b) \<times> zen" where
  "and_then r f = (case r of (Inl e, s) \<Rightarrow> (Inl e, s) | (Inr a, s) \<Rightarrow> f a s)"

text \<open>\<^verbatim>\<open>cond ? createElement(...) : null\<close>.\<close>

definition createElement_if :: "bool \<Rightarrow> string \<Rightarrow> props \<Rightarrow> zen \<Rightarrow> (error + nat option) \<times> zen" where
  "createElement_if cond t p s =
     (if cond then and_then (createElement t p s) (\<lambda>n s'. (Inr (Some n), s')) else (Inr None, s))"

text \<open>The text of the dismiss button, as the bytes of the source file.\<close>

definition close_text :: string where
  "close_text = [CHR 0xC3, CHR 0x83, CHR 0xE2, CHR 0x80, CHR 0x94]"

definition fade_in :: "(string \<times> string) list list" where
  "fade_in = [[(''opacity'', ''0'')], [(''opacity'', ''1'')]]"

definition scale_in :: "(string \<times> string) list list" where
  "scale_in =
     [[(''transform'', ''scale(0.9)''), (''opacity'', ''0'')],
      [(''transform'', ''scale(1)''), (''opacity'', ''1'')]]"

text \<open>The object literals \<^verbatim>\<open>Modal\<close> hands to \<^verbatim>\<open>createElement\<close>.\<close>

definition closeButton_props :: "modal_props \<Rightarrow> props" where
  "closeButton_props p =
     no_props\<lparr>cssStyles := Some closeButtonStyles,
              rest := [(''onClick'', case onClose p of None \<Rightarrow> PVal Undefined | Some f \<Rightarrow> PFunc (UserFn f)),
                       (''ariaLabel'', PVal (Str ''Close''))],
              children := Single (Prim (Str close_text))\<rparr>"

definition modalTitle_props :: "modal_props \<Rightarrow> props" where
  "modalTitle_props p = no_props\<lparr>cssStyles := Some modalTitleStyles, children := Single (title p)\<rparr>"

definition modalHeader_props :: "nat \<Rightarrow> nat \<Rightarrow> props" where
  "modalHeader_props modalTitle closeButton =
     no_props\<lparr>cssStyles := Some modalHeaderStyles,
              children := Many [Node modalTitle, Node closeButton]\<rparr>"

definition modalContent_props :: "modal_props \<Rightarrow> props" where
  "modalContent_props p =
     no_props\<lparr>cssStyles := Some modalContentStyles,
              children := (if truthy_children (content p) then content p else modal_children p)\<rparr>"

definition modalFooter_props :: "modal_props \<Rightarrow> props" where
  "modalFooter_props p = no_props\<lparr>cssStyles := Some modalFooterStyles, children := footer p\<rparr>"

text \<open>\<^verbatim>\<open>[modalHeader, modalContent, modalFooter].filter(Boolean)\<close>.\<close>

definition modal_parts :: "nat option \<Rightarrow> nat \<Rightarrow> nat option \<Rightarrow> nat list" where
  "modal_parts modalHeader modalContent modalFooter =
     (case modalHeader of None \<Rightarrow> [] | Some h \<Rightarrow> [h]) @ [modalContent] @
     (case modalFooter of None \<Rightarrow> [] | Some f \<Rightarrow> [f])"

definition modalElement_props :: "modal_props \<Rightarrow> nat list \<Rightarrow> props" where
  "modalElement_props p parts =
     \<lparr>className = className (modal_rest p), style = style (modal_rest p),
      dataset = dataset (modal_rest p),
      cssStyles = (case cssStyles (modal_rest p) of
                     None \<Rightarrow> Some (getModalStyles (size p))
                   | Some c \<Rightarrow> Some c),
      rest = rest (modal_rest p),
      children = Many (map Node parts)\<rparr>"

definition overlay_props :: "modal_props \<Rightarrow> nat \<Rightarrow> props" where
  "overlay_props p modalElement =
     no_props\<lparr>cssStyles := Some overlayStyles,
              rest := [(''onClick'', PFunc (HandleOverlayClick (onClose p)))],
              children := Single (Node modalElement)\<rparr>"

text \<open>
  The end of \<^verbatim>\<open>Modal\<close>: the overlay is appended to the body, the two enter animations
  start, \<^verbatim>\<open>cleanup\<close> becomes a property of the modal element and a click listener of the
  dismiss button.
\<close>

definition mount_modal :: "nat \<Rightarrow> nat \<Rightarrow> nat \<Rightarrow> zen \<Rightarrow> zen" where
  "mount_modal closeButton modalElement overlay s =
     (let s1 = appendChild document_body (ElementNode overlay) s;
          s2 = snd (animate (Some overlay) (Some fade_in) duration_200 s1);
          s3 = snd (animate (Some modalElement) (Some scale_in) duration_200 s2);
          s4 = set_property modalElement ''cleanup'' (PFunc (Cleanup overlay modalElement)) s3
      in addEventListener closeButton ''click'' (Cleanup overlay modalElement) s4)"

text \<open>
  \<^verbatim>\<open>Modal(props)\<close>: \<^verbatim>\<open>null\<close> when not open, else the modal element, attached to the body
  inside its overlay.
\<close>

definition Modal_render :: "modal_props \<Rightarrow> zen \<Rightarrow> (error + nat option) \<times> zen" where
  "Modal_render p s =
     (if \<not> isOpen p then (Inr None, s)
      else
        and_then (createElement ''button'' (closeButton_props p) s)
        (\<lambda>closeButton s.
        and_then (createElement ''h3'' (modalTitle_props p) s)
        (\<lambda>modalTitle s.
        and_then (createElement_if (truthy_child (title p)) ''div''
                    (modalHeader_props modalTitle closeButton) s)
        (\<lambda>modalHeader s.
        and_then (createElement ''div'' (modalContent_props p) s)
        (\<lambda>modalContent s.
        and_then (createElement_if (truthy_children (footer p)) ''div'' (modalFooter_props p) s)
        (\<lambda>modalFooter s.
        and_then (createElement ''div''
                    (modalElement_props p (modal_parts modalHeader modalContent modalFooter)) s)
        (\<lambda>modalElement s.
        and_then (createElement ''div'' (overlay_props p modalElement) s)
        (\<lambda>overlay s.
          (Inr (Some modalElement), mount_modal closeButton modalElement overlay s)))))))))"

definition Modal :: "modal_props \<Rightarrow> zen \<Rightarrow> (error + nat option) \<times> zen" where
  "Modal = createComponent Modal_render"

section \<open>Events\<close>

text \<open>
  The path of an event from its target up to the root; the number of elements bounds its
  length.
\<close>

fun ancestors :: "nat \<Rightarrow> zen \<Rightarrow> nat \<Rightarrow> nat list" where
  "ancestors 0 s n = [n]"
| "ancestors (Suc k) s n =
     (case parentNode (nodes s n) of None \<Rightarrow> [n] | Some p \<Rightarrow> n # ancestors k s p)"

definition event_path :: "zen \<Rightarrow> nat \<Rightarrow> nat list" where
  "event_path s t = ancestors (nextNode s) s t"

definition listeners_for :: "string \<Rightarrow> element \<Rightarrow> callback list" where
  "listeners_for name e = map snd (filter (\<lambda>l. fst l = name) (listeners e))"

text \<open>An event that bubbles: every listener for it on the path is called, from the target up.\<close>

definition dispatch :: "string \<Rightarrow> nat \<Rightarrow> zen \<Rightarrow> zen" where
  "dispatch name t s =
     fold (\<lambda>cur s'. fold (\<lambda>f. invoke f (EventArg t cur)) (listeners_for name (nodes s' cur)) s')
       (event_path s t) s"

text \<open>
  What can happen to a document with a modal: a click on an element, the completion of an
  animation (its notification fires once), and a call of the \<^verbatim>\<open>cleanup\<close> property of an
  element by the caller.
\<close>

datatype event = Click nat | Finish nat | CallCleanup nat

fun step :: "event \<Rightarrow> zen \<Rightarrow> zen" where
  "step (Click t) s = dispatch ''click'' t s"
| "step (Finish a) s =
     (if a < length (animations s) \<and> \<not> finished (animations s ! a) then
        (let s1 = s\<lparr>animations := (animations s)[a := (animations s ! a)\<lparr>finished := True\<rparr>]\<rparr>
         in case onfinish (animations s ! a) of
              None \<Rightarrow> s1
            | Some f \<Rightarrow> invoke f NoArg s1)
      else s)"
| "step (CallCleanup m) s =
     (case map_of (properties (nodes s m)) ''cleanup'' of
        Some (PFunc f) \<Rightarrow> invoke f NoArg s
      | _ \<Rightarrow> s)"

text \<open>The exit animation of an overlay has been started and has not completed.\<close>

definition closing :: "zen \<Rightarrow> nat \<Rightarrow> bool" where
  "closing s overlay =
     (parentNode (nodes s overlay) \<noteq> None
      \<and> list_ex (\<lambda>a. onfinish a = Some (OverlayAnimFinish overlay)) (animations s))"

section \<open>Runs of the module\<close>

text \<open>
  What a program does with the module, one operation after the other: the calls of the
  public functions, the events of the document, and its own work on theme objects.
\<close>

datatype operation =
    OpCss style_desc
  | OpCreateElement string props
  | OpModal modal_props
  | OpSetTheme nat
  | OpGetTheme
  | OpResetTheme
  | OpEvent event
  | OpNewCategory "(string \<times> string) list"
  | OpNewTheme "(string \<times> nat) list"
  | OpAssignToken nat string string string

fun run_op :: "operation \<Rightarrow> zen \<Rightarrow> zen" where
  "run_op (OpCss d) s = snd (css d s)"
| "run_op (OpCreateElement t p) s = snd (createElement t p s)"
| "run_op (OpModal p) s = snd (Modal p s)"
| "run_op (OpSetTheme a) s = snd (setTheme a s)"
| "run_op OpGetTheme s = snd (getTheme s)"
| "run_op OpResetTheme s = snd (resetTheme s)"
| "run_op (OpEvent e) s = step e s"
| "run_op (OpNewCategory tokens) s = snd (new_category tokens s)"
| "run_op (OpNewTheme categories) s = snd (new_theme categories s)"
| "run_op (OpAssignToken t c k v) s = (case assign_token t c k v s of Inl e \<Rightarrow> s | Inr s' \<Rightarrow> s')"

fun run :: "operation list \<Rightarrow> zen \<Rightarrow> zen" where
  "run [] s = s"
| "run (op # ops) s = run ops (run_op op s)"

text \<open>The rules of the style sheet are those of the classes minted so far, in order.\<close>

definition sheet_inv :: "zen \<Rightarrow> bool" where
  "sheet_inv s = (map rule_class (cssRules s) = map style_class [0..<uniqueId s])"

section \<open>Well-formed documents\<close>

text \<open>A closure that holds the overlay \<open>ov\<close>.\<close>

fun mentions :: "nat \<Rightarrow> callback \<Rightarrow> bool" where
  "mentions ov (Cleanup overlay modalElement) = (overlay = ov)"
| "mentions ov (OverlayAnimFinish overlay) = (overlay = ov)"
| "mentions ov (UserFn f) = False"
| "mentions ov (HandleOverlayClick h) = False"

fun closure_below :: "nat \<Rightarrow> callback \<Rightarrow> bool" where
  "closure_below k (Cleanup overlay modalElement) = (overlay < k)"
| "closure_below k (OverlayAnimFinish overlay) = (overlay < k)"
| "closure_below k (UserFn f) = True"
| "closure_below k (HandleOverlayClick h) = True"

text \<open>
  A state in which every element that is referred to exists: the body exists and is a
  root, parents and children are elements created so far, and the closures held by
  listeners, properties and animations are closures over elements created so far.
\<close>

definition well_formed :: "zen \<Rightarrow> bool" where
  "well_formed s =
     (document_body < nextNode s
      \<and> parentNode (nodes s document_body) = None
      \<and> (\<forall>n q. parentNode (nodes s n) = Some q \<longrightarrow> q < nextNode s)
      \<and> (\<forall>n c. ElementNode c \<in> set (childNodes (nodes s n)) \<longrightarrow> c < nextNode s)
      \<and> (\<forall>n l. l \<in> set (listeners (nodes s n)) \<longrightarrow> closure_below (nextNode s) (snd l))
      \<and> (\<forall>n kv f. kv \<in> set (properties (nodes s n)) \<longrightarrow> snd kv = PFunc f
            \<longrightarrow> closure_below (nextNode s) f)
      \<and> (\<forall>a f. a \<in> set (animations s) \<longrightarrow> onfinish a = Some f \<longrightarrow> closure_below (nextNode s) f))"

text \<open>Properties that refer to elements created so far only.\<close>

fun child_below :: "nat \<Rightarrow> child \<Rightarrow> bool" where
  "child_below k (Prim v) = True"
| "child_below k (Node n) = (n < k)"

fun children_below :: "nat \<Rightarrow> children_prop \<Rightarrow> bool" where
  "children_below k (Single c) = child_below k c"
| "children_below k (Many cs) = list_all (child_below k) cs"

fun value_below :: "nat \<Rightarrow> prop_value \<Rightarrow> bool" where
  "value_below k (PVal v) = True"
| "value_below k (PFunc f) = closure_below k f"

definition props_below :: "nat \<Rightarrow> modal_props \<Rightarrow> bool" where
  "props_below k p =
     (child_below k (title p) \<and> children_below k (content p)
      \<and> children_below k (modal_children p) \<and> children_below k (footer p)
      \<and> list_all (\<lambda>kv. value_below k (snd kv)) (rest (modal_rest p)))"

fun children_list :: "children_prop \<Rightarrow> child list" where
  "children_list (Single c) = [c]"
| "children_list (Many cs) = cs"

text \<open>An element that has just been created: no parent, no children.\<close>

definition fresh_leaf :: "nat \<Rightarrow> zen \<Rightarrow> bool" where
  "fresh_leaf el s = (childNodes (nodes s el) = [] \<and> parentNode (nodes s el) = None)"

text \<open>An element that is in the document: its path reaches the body.\<close>

definition connected :: "zen \<Rightarrow> nat \<Rightarrow> bool" where
  "connected s t = (document_body \<in> set (event_path s t))"

text \<open>
  The element \<open>cb\<close> is in no tree and has no element below it, and no closure holds the
  overlay \<open>ov\<close>.
\<close>

definition apart :: "nat \<Rightarrow> nat \<Rightarrow> zen \<Rightarrow> bool" where
  "apart cb ov s =
     (parentNode (nodes s cb) = None
      \<and> (\<forall>n. parentNode (nodes s n) \<noteq> Some cb)
      \<and> (\<forall>n. ElementNode cb \<notin> set (childNodes (nodes s n)))
      \<and> (\<forall>n l. l \<in> set (listeners (nodes s n)) \<longrightarrow> \<not> mentions ov (snd l))
      \<and> (\<forall>n kv f. kv \<in> set (properties (nodes s n)) \<longrightarrow> snd kv = PFunc f \<longrightarrow> \<not> mentions ov f)
      \<and> (\<forall>a f. a \<in> set (animations s) \<longrightarrow> onfinish a = Some f \<longrightarrow> \<not> mentions ov f))"

text \<open>
  The same with the two closures a modal without header ends with: \<^verbatim>\<open>cleanup\<close> as a
  listener of the detached button \<open>cb\<close> and as a property of the modal element \<open>m\<close>.
\<close>

definition open_modal :: "nat \<Rightarrow> nat \<Rightarrow> nat \<Rightarrow> zen \<Rightarrow> bool" where
  "open_modal cb m ov s =
     (parentNode (nodes s cb) = None
      \<and> (\<forall>n. parentNode (nodes s n) \<noteq> Some cb)
      \<and> (\<forall>n. ElementNode cb \<notin> set (childNodes (nodes s n)))
      \<and> (\<forall>n l. n \<noteq> cb \<longrightarrow> l \<in> set (listeners (nodes s n)) \<longrightarrow> \<not> mentions ov (snd l))
      \<and> (\<forall>n kv f. n \<noteq> m \<longrightarrow> kv \<in> set (properties (nodes s n)) \<longrightarrow> snd kv = PFunc f
            \<longrightarrow> \<not> mentions ov f)
      \<and> (\<forall>a f. a \<in> set (animations s) \<longrightarrow> onfinish a = Some f \<longrightarrow> \<not> mentions ov f))"

text \<open>
  The events that can reach a document from outside: a click on an element that is in the
  document, the completion of an animation, a call of a \<^verbatim>\<open>cleanup\<close> property.
\<close>

fun possible :: "zen \<Rightarrow> event \<Rightarrow> bool" where
  "possible s (Click t) = connected s t"
| "possible s (Finish a) = True"
| "possible s (CallCleanup x) = True"

text \<open>
  A sequence of such events, one after the other, and whether each of them can reach the
  document in the state it meets.
\<close>

fun steps :: "event list \<Rightarrow> zen \<Rightarrow> zen" where
  "steps [] s = s"
| "steps (e # es) s = steps es (step e s)"

fun all_possible :: "event list \<Rightarrow> zen \<Rightarrow> bool" where
  "all_possible [] s = True"
| "all_possible (e # es) s = (possible s e \<and> all_possible es (step e s))"

text \<open>\<^verbatim>\<open>{isOpen: true, content: 'Hello', onClose: f}\<close>, with \<open>f\<close> the function 0 of the caller.\<close>

definition plain_modal :: modal_props where
  "plain_modal =
     \<lparr>title = Prim Undefined, content = Single (Prim (Str ''Hello'')),
      footer = Single (Prim Undefined), isOpen = True, onClose = Some 0, size = ''medium'',
      modal_children = Single (Prim Undefined),
      modal_rest = \<lparr>className = ClassVal Undefined, style = None, dataset = None,
                     cssStyles = None, rest = []\<rparr>\<rparr>"

section \<open>Properties of the style engine\<close>

subsection \<open>Class names\<close>

lemma of_char_digit_char: "d < 10 \<Longrightarrow> (of_char (digit_char d) :: nat) = 48 + d"
proof -
  assume "d < 10"
  then have "d \<in> {0, 1, 2, 3, 4, 5, 6, 7, 8, 9}" by auto
  then show ?thesis by (auto simp add: digit_char_def)
qed

lemma nat_of_string_of_nat: "nat_of_string (string_of_nat n) = n"
proof (induction n rule: string_of_nat.induct)
  case (1 n)
  show ?case
  proof (cases "n < 10")
    case True
    then show ?thesis
      by (simp add: string_of_nat.simps [of n] nat_of_string_def of_char_digit_char)
  next
    case False
    with 1 have "nat_of_string (string_of_nat (n div 10)) = n div 10" by simp
    with False show ?thesis
      by (simp add: string_of_nat.simps [of n] nat_of_string_def of_char_digit_char)
  qed
qed

lemma string_of_nat_inj: "string_of_nat m = string_of_nat n \<Longrightarrow> m = n"
  by (metis nat_of_string_of_nat)

lemma digit_char_not_space: "d < 10 \<Longrightarrow> digit_char d \<noteq> CHR '' ''"
proof
  assume "d < 10" and "digit_char d = CHR '' ''"
  then have "(of_char (digit_char d) :: nat) = of_char (CHR '' '')" by simp
  with \<open>d < 10\<close> show False by (simp add: of_char_digit_char)
qed

lemma string_of_nat_no_space: "CHR '' '' \<notin> set (string_of_nat n)"
proof (induction n rule: string_of_nat.induct)
  case (1 n)
  show ?case
  proof (cases "n < 10")
    case True
    then show ?thesis
      using digit_char_not_space [of n] by (auto simp add: string_of_nat.simps [of n])
  next
    case False
    with 1 have "CHR '' '' \<notin> set (string_of_nat (n div 10))" by simp
    moreover have "digit_char (n mod 10) \<noteq> CHR '' ''" by (rule digit_char_not_space) simp
    ultimately show ?thesis using False
      by (auto simp add: string_of_nat.simps [of n])
  qed
qed

lemma rule_class_rule: "rule_class (''.'' @ style_class i @ '' { '' @ text @ '' }'') = style_class i"
proof -
  have "CHR '' '' \<notin> set (style_class i)"
    using string_of_nat_no_space [of i] by (simp add: style_class_def)
  then have "takeWhile (\<lambda>c. c \<noteq> CHR '' '') (style_class i @ CHR '' '' # ''{ '' @ text @ '' }'') = style_class i"
    by (subst takeWhile_tail) auto
  then show ?thesis by (simp add: rule_class_def)
qed

lemma style_class_inj: "style_class i = style_class j \<Longrightarrow> i = j"
  by (simp add: style_class_def string_of_nat_inj)

subsection \<open>One call of \<^verbatim>\<open>css\<close>\<close>

lemma createUniqueId_style: "createUniqueId ''zen-style'' s = (style_class (uniqueId s), s\<lparr>uniqueId := uniqueId s + 1\<rparr>)"
  by (simp add: createUniqueId_def style_class_def)

lemma css_miss:
  "styleCache s (style_hash (cssString d s)) = None \<Longrightarrow>
   css d s = (style_class (uniqueId s),
     s\<lparr>uniqueId := uniqueId s + 1,
       styleCache := (styleCache s)(style_hash (cssString d s) \<mapsto> style_class (uniqueId s)),
       cssRules := cssRules s @ [''.'' @ style_class (uniqueId s) @ '' { '' @ cssString d s @ '' }'']\<rparr>)"
  by (simp add: css_def createUniqueId_style Let_def)

lemma css_hit:
  "styleCache s (style_hash (cssString d s)) = Some c \<Longrightarrow> css d s = (c, s)"
  by (simp add: css_def Let_def)

lemma css_frame:
  "activeTheme (snd (css d s)) = activeTheme s"
  "themeObjs (snd (css d s)) = themeObjs s"
  "categoryObjs (snd (css d s)) = categoryObjs s"
  by (cases "styleCache s (style_hash (cssString d s))"; simp add: css_miss css_hit)+

lemma theme_at_css: "theme_at (snd (css d s)) a = theme_at s a"
  by (simp add: theme_at_def css_frame)

lemma cssString_css [simp]: "cssString d (snd (css d' s)) = cssString d s"
  by (cases d) (simp_all add: cssString_def processedStyles_def theme_at_css css_frame)

lemma css_cache_persists:
  "styleCache s h = Some c \<Longrightarrow> styleCache (snd (css d s)) h = Some c"
  by (cases "styleCache s (style_hash (cssString d s))") (auto simp add: css_miss css_hit)

lemma css_registers:
  "styleCache (snd (css d s)) (style_hash (cssString d s)) = Some (fst (css d s))"
  by (cases "styleCache s (style_hash (cssString d s))") (auto simp add: css_miss css_hit)

lemma css_all_cache_persists:
  "styleCache s h = Some c \<Longrightarrow> styleCache (css_all ds s) h = Some c"
  by (induction ds arbitrary: s) (simp_all add: css_cache_persists)

lemma cssString_css_all [simp]: "cssString d (css_all ds s) = cssString d s"
  by (induction ds arbitrary: s) simp_all

lemma css_repeat: "cssString d1 s = cssString d2 s \<Longrightarrow> css d2 (snd (css d1 s)) = css d1 s"
  using css_registers [of d1 s] css_hit [of "snd (css d1 s)" d2 "fst (css d1 s)"] by simp

lemma css_all_replicate:
  "cssString d1 s = cssString d2 s \<Longrightarrow> css_all (replicate n d2) (snd (css d1 s)) = snd (css d1 s)"
  by (induction n) (simp_all add: css_repeat)

lemma css_same_key:
  assumes "style_hash (cssString d3 s) = style_hash (cssString d1 s)"
  shows "css d3 (css_all ds (snd (css d1 s))) = (fst (css d1 s), css_all ds (snd (css d1 s)))"
proof -
  have "styleCache (css_all ds (snd (css d1 s))) (style_hash (cssString d1 s)) = Some (fst (css d1 s))"
    by (rule css_all_cache_persists) (rule css_registers)
  then have "styleCache (css_all ds (snd (css d1 s)))
      (style_hash (cssString d3 (css_all ds (snd (css d1 s))))) = Some (fst (css d1 s))"
    using assms by simp
  then show ?thesis by (rule css_hit)
qed

text \<open>
  Claim C2, amended. Let two style descriptions resolve to the same rule text in a state.
  Then \<^verbatim>\<open>css\<close> returns the same class name for both, also when other descriptions are
  resolved in between; a repeated call returns the class and the state of the first call,
  and any number of repeated calls leaves the state of the first call as it is. How many
  rules the style sheet gets depends on the key of the text in the cache, not on the text:
  when the key is not in the cache, the first call mints a class and appends exactly one
  rule, \<^verbatim>\<open>.class { text }\<close>; when the key is in the cache, the first call returns the class
  registered under the key and changes nothing, so that no rule is appended.

  The last conjunct is the reason: after the first call the lookup succeeds for every
  description whose text has the key of the first, whatever calls lie in between.
\<close>

theorem css_same_text_one_rule_per_key:
  assumes "cssString d1 s = cssString d2 s"
  shows "fst (css d2 (css_all ds (snd (css d1 s)))) = fst (css d1 s)
       \<and> css d2 (snd (css d1 s)) = css d1 s
       \<and> css_all (replicate n d2) (snd (css d1 s)) = snd (css d1 s)
       \<and> (styleCache s (style_hash (cssString d1 s)) = None \<longrightarrow>
            fst (css d1 s) = style_class (uniqueId s)
          \<and> cssRules (snd (css d1 s)) =
              cssRules s @ [''.'' @ style_class (uniqueId s) @ '' { '' @ cssString d1 s @ '' }''])
       \<and> (\<forall>c. styleCache s (style_hash (cssString d1 s)) = Some c \<longrightarrow> css d1 s = (c, s))
       \<and> (style_hash (cssString d3 s) = style_hash (cssString d1 s) \<longrightarrow>
            css d3 (css_all ds (snd (css d1 s))) = (fst (css d1 s), css_all ds (snd (css d1 s))))"
proof -
  have key: "style_hash (cssString d2 s) = style_hash (cssString d1 s)"
    using assms by simp
  have "fst (css d2 (css_all ds (snd (css d1 s)))) = fst (css d1 s)"
    using css_same_key [OF key, of ds] by simp
  moreover have "css d2 (snd (css d1 s)) = css d1 s"
    using assms by (rule css_repeat)
  moreover have "css_all (replicate n d2) (snd (css d1 s)) = snd (css d1 s)"
    using assms by (rule css_all_replicate)
  moreover have "fst (css d1 s) = style_class (uniqueId s)
       \<and> cssRules (snd (css d1 s)) =
           cssRules s @ [''.'' @ style_class (uniqueId s) @ '' { '' @ cssString d1 s @ '' }'']"
    if "styleCache s (style_hash (cssString d1 s)) = None"
    using that by (simp add: css_miss)
  moreover have "css d1 s = (c, s)" if "styleCache s (style_hash (cssString d1 s)) = Some c" for c
    using that by (rule css_hit)
  moreover have "css d3 (css_all ds (snd (css d1 s))) = (fst (css d1 s), css_all ds (snd (css d1 s)))"
    if "style_hash (cssString d3 s) = style_hash (cssString d1 s)"
    using that by (rule css_same_key)
  ultimately show ?thesis by blast
qed

text \<open>Evaluation of \<^verbatim>\<open>css\<close> on given styles.\<close>

lemmas css_eval = css_def cssString_def processedStyles_def css_entry_def style_hash_def
  b64_def b64_alphabet_def createUniqueId_def string_of_nat.simps digit_char_def Let_def

lemma initial_fields [simp]:
  "styleCache initial = Map.empty" "uniqueId initial = 0" "cssRules initial = []"
  "activeTheme initial = 7" "nextObj initial = 8"
  by (simp_all add: initial_def)

lemma css_red_first:
  "css (StaticStyles [(''color'', Lit ''red'')]) initial =
     (''zen-style-0'', initial\<lparr>uniqueId := 1,
        styleCache := [''Y29sb3I6'' \<mapsto> ''zen-style-0''],
        cssRules := [''.zen-style-0 { color: red; }'']\<rparr>)"
  by (simp add: css_eval)

lemma css_texts:
  "cssString (StaticStyles [(''color'', Lit ''red'')]) s = ''color: red;''"
  "cssString (StyleFn (\<lambda>theme. [(''color'', Lit ''red'')])) s = ''color: red;''"
  "cssString (StaticStyles [(''color'', Lit ''blue'')]) s = ''color: blue;''"
  "cssString (StyleFn (\<lambda>theme. [(''color'', Lit ''blue'')])) s = ''color: blue;''"
  "cssString (StaticStyles [(''margin'', Lit ''0'')]) s = ''margin: 0;''"
  by (simp_all add: cssString_def processedStyles_def css_entry_def)

lemma css_keys:
  "style_hash ''color: red;'' = ''Y29sb3I6''"
  "style_hash ''color: blue;'' = ''Y29sb3I6''"
  "style_hash ''margin: 0;'' = ''bWFyZ2lu''"
  by (simp_all add: style_hash_def b64_def b64_alphabet_def)

lemma css_margin_second:
  "css (StaticStyles [(''margin'', Lit ''0'')])
      (snd (css (StaticStyles [(''color'', Lit ''red'')]) initial))
   = (''zen-style-1'', initial\<lparr>uniqueId := 2,
        styleCache := [''Y29sb3I6'' \<mapsto> ''zen-style-0'', ''bWFyZ2lu'' \<mapsto> ''zen-style-1''],
        cssRules := [''.zen-style-0 { color: red; }'', ''.zen-style-1 { margin: 0; }'']\<rparr>)"
  by (simp add: css_red_first css_miss css_texts css_keys style_class_def string_of_nat.simps
      digit_char_def)

lemma css_blue_after_red:
  "styleCache (snd (css (StaticStyles [(''color'', Lit ''red'')]) initial))
     (style_hash (cssString d (snd (css (StaticStyles [(''color'', Lit ''red'')]) initial))))
   = Some ''zen-style-0''"
  if "cssString d (snd (css (StaticStyles [(''color'', Lit ''red'')]) initial)) = ''color: blue;''"
  using that by (simp add: css_keys css_red_first)

text \<open>
  A mapping and a function of the theme that both resolve to \<^verbatim>\<open>color: red;\<close>, in the state
  after the load of the module, with \<^verbatim>\<open>margin: 0;\<close> resolved in between, which has a key
  of its own and gets the second rule, and \<^verbatim>\<open>color: blue;\<close>, which has the key of
  \<^verbatim>\<open>color: red;\<close>; and \<^verbatim>\<open>color: blue;\<close> resolved twice in the state after
  \<^verbatim>\<open>color: red;\<close>, where its key is in the cache.
\<close>

theorem css_same_text_one_rule_per_key_witness:
  "cssString (StaticStyles [(''color'', Lit ''red'')]) initial
     = cssString (StyleFn (\<lambda>theme. [(''color'', Lit ''red'')])) initial
   \<and> styleCache initial (style_hash (cssString (StaticStyles [(''color'', Lit ''red'')]) initial)) = None
   \<and> cssRules (snd (css (StaticStyles [(''color'', Lit ''red'')]) initial))
       = [''.zen-style-0 { color: red; }'']
   \<and> cssRules (css_all [StaticStyles [(''margin'', Lit ''0'')]]
        (snd (css (StaticStyles [(''color'', Lit ''red'')]) initial)))
       = [''.zen-style-0 { color: red; }'', ''.zen-style-1 { margin: 0; }'']
   \<and> fst (css (StyleFn (\<lambda>theme. [(''color'', Lit ''red'')]))
        (css_all [StaticStyles [(''margin'', Lit ''0'')]]
          (snd (css (StaticStyles [(''color'', Lit ''red'')]) initial)))) = ''zen-style-0''
   \<and> css_all (replicate 3 (StyleFn (\<lambda>theme. [(''color'', Lit ''red'')])))
        (snd (css (StaticStyles [(''color'', Lit ''red'')]) initial))
       = snd (css (StaticStyles [(''color'', Lit ''red'')]) initial)
   \<and> style_hash (cssString (StaticStyles [(''color'', Lit ''blue'')]) initial)
       = style_hash (cssString (StaticStyles [(''color'', Lit ''red'')]) initial)
   \<and> css (StaticStyles [(''color'', Lit ''blue'')])
        (css_all [StaticStyles [(''margin'', Lit ''0'')]]
          (snd (css (StaticStyles [(''color'', Lit ''red'')]) initial)))
       = (''zen-style-0'',
          css_all [StaticStyles [(''margin'', Lit ''0'')]]
            (snd (css (StaticStyles [(''color'', Lit ''red'')]) initial)))
   \<and> cssString (StaticStyles [(''color'', Lit ''blue'')])
        (snd (css (StaticStyles [(''color'', Lit ''red'')]) initial))
       = cssString (StyleFn (\<lambda>theme. [(''color'', Lit ''blue'')]))
           (snd (css (StaticStyles [(''color'', Lit ''red'')]) initial))
   \<and> styleCache (snd (css (StaticStyles [(''color'', Lit ''red'')]) initial))
        (style_hash (cssString (StaticStyles [(''color'', Lit ''blue'')])
           (snd (css (StaticStyles [(''color'', Lit ''red'')]) initial)))) = Some ''zen-style-0''
   \<and> css (StaticStyles [(''color'', Lit ''blue'')])
        (snd (css (StaticStyles [(''color'', Lit ''red'')]) initial))
       = (''zen-style-0'', snd (css (StaticStyles [(''color'', Lit ''red'')]) initial))"
proof -
  let ?red = "StaticStyles [(''color'', Lit ''red'')]"
  let ?red' = "StyleFn (\<lambda>theme. [(''color'', Lit ''red'')])"
  let ?blue = "StaticStyles [(''color'', Lit ''blue'')]"
  let ?blue' = "StyleFn (\<lambda>theme. [(''color'', Lit ''blue'')])"
  let ?margin = "StaticStyles [(''margin'', Lit ''0'')]"
  have h: "cssString ?red initial = cssString ?red' initial"
    by (simp add: css_texts)
  have miss: "styleCache initial (style_hash (cssString ?red initial)) = None"
    by simp
  have k: "style_hash (cssString ?blue initial) = style_hash (cssString ?red initial)"
    by (simp add: css_texts css_keys)
  have h': "cssString ?blue (snd (css ?red initial)) = cssString ?blue' (snd (css ?red initial))"
    by (simp add: css_texts)
  have hit: "styleCache (snd (css ?red initial))
      (style_hash (cssString ?blue (snd (css ?red initial)))) = Some ''zen-style-0''"
    by (rule css_blue_after_red) (simp add: css_texts)
  note t = css_same_text_one_rule_per_key [OF h, of "[?margin]" 3 ?blue]
  note t' = css_same_text_one_rule_per_key [OF h', of "[]" 0 ?blue]
  have two: "cssRules (css_all [?margin] (snd (css ?red initial)))
      = [''.zen-style-0 { color: red; }'', ''.zen-style-1 { margin: 0; }'']"
    by (simp add: css_margin_second)
  have cls: "style_class 0 = ''zen-style-0''"
    by (simp add: style_class_def string_of_nat.simps digit_char_def)
  from t miss have "fst (css ?red initial) = ''zen-style-0''"
    and "cssRules (snd (css ?red initial)) = [''.zen-style-0 { color: red; }'']"
    by (simp_all add: cls css_texts)
  moreover from t have "fst (css ?red' (css_all [?margin] (snd (css ?red initial)))) = fst (css ?red initial)"
    and "css_all (replicate 3 ?red') (snd (css ?red initial)) = snd (css ?red initial)"
    by blast+
  moreover from t k have "css ?blue (css_all [?margin] (snd (css ?red initial)))
      = (fst (css ?red initial), css_all [?margin] (snd (css ?red initial)))"
    by blast
  moreover from t' hit have "css ?blue (snd (css ?red initial))
      = (''zen-style-0'', snd (css ?red initial))"
    by blast
  ultimately show ?thesis
    using h miss k h' hit two by simp
qed

text \<open>
  Claim C2 as it is stated fails. After \<^verbatim>\<open>css({color: 'red'})\<close> the description
  \<^verbatim>\<open>{color: 'blue'}\<close> resolves to \<^verbatim>\<open>color: blue;\<close>, whose key \<^verbatim>\<open>Y29sb3I6\<close> is that of
  \<^verbatim>\<open>color: red;\<close>: every call returns the class \<^verbatim>\<open>zen-style-0\<close>, and after three calls the
  style sheet still consists of the rule of \<^verbatim>\<open>color: red;\<close> alone, so the number of rules
  for \<^verbatim>\<open>color: blue;\<close> is zero, not one.
\<close>

theorem css_same_text_no_rule_counterexample:
  "cssString (StaticStyles [(''color'', Lit ''blue'')])
       (snd (css (StaticStyles [(''color'', Lit ''red'')]) initial)) = ''color: blue;''
   \<and> fst (css (StaticStyles [(''color'', Lit ''blue'')])
          (snd (css (StaticStyles [(''color'', Lit ''red'')]) initial))) = ''zen-style-0''
   \<and> cssRules (css_all (replicate 3 (StaticStyles [(''color'', Lit ''blue'')]))
          (snd (css (StaticStyles [(''color'', Lit ''red'')]) initial)))
       = [''.zen-style-0 { color: red; }'']
   \<and> count_list (cssRules (css_all (replicate 3 (StaticStyles [(''color'', Lit ''blue'')]))
          (snd (css (StaticStyles [(''color'', Lit ''red'')]) initial))))
        ''.zen-style-0 { color: blue; }'' = 0"
proof -
  let ?s = "snd (css (StaticStyles [(''color'', Lit ''red'')]) initial)"
  have b: "css (StaticStyles [(''color'', Lit ''blue'')]) ?s = (''zen-style-0'', ?s)"
    by (rule css_hit, rule css_blue_after_red) (simp add: css_texts)
  have "css_all (replicate 3 (StaticStyles [(''color'', Lit ''blue'')])) ?s = ?s"
    by (simp add: numeral_3_eq_3 b)
  moreover have "cssRules ?s = [''.zen-style-0 { color: red; }'']"
    by (simp add: css_red_first)
  ultimately show ?thesis
    by (simp add: b css_texts)
qed

text \<open>
  Claim C3. Two style descriptions that resolve to distinct rule text get distinct class
  names. The code does not do this: the key of the cache is made of the first eight
  characters of the base64 text, that is of the first six bytes of the rule text, so
  \<^verbatim>\<open>color: red;\<close> and \<^verbatim>\<open>color: blue;\<close> share the key \<^verbatim>\<open>Y29sb3I6\<close>, the second call returns
  the class of the first, and no rule is inserted for the second text.
\<close>

theorem css_distinct_text_same_class:
  "cssString (StaticStyles [(''color'', Lit ''red'')]) initial = ''color: red;''
   \<and> cssString (StaticStyles [(''color'', Lit ''blue'')]) initial = ''color: blue;''
   \<and> fst (css (StaticStyles [(''color'', Lit ''red'')]) initial) = ''zen-style-0''
   \<and> fst (css (StaticStyles [(''color'', Lit ''blue'')])
            (snd (css (StaticStyles [(''color'', Lit ''red'')]) initial))) = ''zen-style-0''
   \<and> cssRules (snd (css (StaticStyles [(''color'', Lit ''blue'')])
            (snd (css (StaticStyles [(''color'', Lit ''red'')]) initial))))
       = [''.zen-style-0 { color: red; }'']"
  by (simp add: css_eval)

subsection \<open>Theme store\<close>

text \<open>
  Claim C5. After \<^verbatim>\<open>setTheme\<close>, and after \<^verbatim>\<open>resetTheme\<close>, the cache holds no entry at all; so
  the next call of \<^verbatim>\<open>css\<close>, whatever the description, finds nothing to reuse: it mints the
  class of the current counter, registers it as the only entry and appends its rule.
\<close>

theorem theme_change_clears_cache:
  "styleCache (snd (setTheme newTheme s)) = Map.empty
   \<and> styleCache (snd (resetTheme s)) = Map.empty
   \<and> css d (snd (setTheme newTheme s)) =
       (style_class (uniqueId s),
        (snd (setTheme newTheme s))
          \<lparr>uniqueId := uniqueId s + 1,
           styleCache := [style_hash (cssString d (snd (setTheme newTheme s))) \<mapsto> style_class (uniqueId s)],
           cssRules := cssRules s @
             [''.'' @ style_class (uniqueId s) @ '' { '' @ cssString d (snd (setTheme newTheme s)) @ '' }'']\<rparr>)
   \<and> css d (snd (resetTheme s)) =
       (style_class (uniqueId s),
        (snd (resetTheme s))
          \<lparr>uniqueId := uniqueId s + 1,
           styleCache := [style_hash (cssString d (snd (resetTheme s))) \<mapsto> style_class (uniqueId s)],
           cssRules := cssRules s @
             [''.'' @ style_class (uniqueId s) @ '' { '' @ cssString d (snd (resetTheme s)) @ '' }'']\<rparr>)"
proof -
  have a: "styleCache (snd (setTheme newTheme s)) = Map.empty"
    "uniqueId (snd (setTheme newTheme s)) = uniqueId s"
    "cssRules (snd (setTheme newTheme s)) = cssRules s"
    by (simp_all add: setTheme_def Let_def)
  have b: "styleCache (snd (resetTheme s)) = Map.empty"
    "uniqueId (snd (resetTheme s)) = uniqueId s"
    "cssRules (snd (resetTheme s)) = cssRules s"
    by (simp_all add: resetTheme_def)
  show ?thesis
    using css_miss [of "snd (setTheme newTheme s)" d] css_miss [of "snd (resetTheme s)" d]
    by (simp add: a b)
qed

lemma theme_at_getTheme:
  "theme_at (snd (getTheme s)) (fst (getTheme s)) = theme_at s (activeTheme s)"
  by (simp add: getTheme_def theme_at_def)

lemma theme_at_setTheme_category:
  assumes "c \<in> set theme_categories"
  shows "theme_at (snd (setTheme newTheme s)) (fst (setTheme newTheme s)) c =
     Some (spread_category s (themeObjs s (activeTheme s)) c ++ spread_category s (themeObjs s newTheme) c)"
  using assms by (auto simp add: theme_categories_def setTheme_def theme_at_def Let_def)

lemma theme_at_setTheme_other:
  assumes "c \<notin> set theme_categories"
  shows "theme_at (snd (setTheme newTheme s)) (fst (setTheme newTheme s)) c =
     map_option (categoryObjs (snd (setTheme newTheme s)))
       ((themeObjs s (activeTheme s) ++ themeObjs s newTheme) c)"
  using assms by (simp add: theme_categories_def setTheme_def theme_at_def Let_def)

lemma categoryObjs_setTheme_old:
  "r < nextObj s \<Longrightarrow> categoryObjs (snd (setTheme newTheme s)) r = categoryObjs s r"
  by (simp add: setTheme_def Let_def)

lemma setTheme_returns_active: "activeTheme (snd (setTheme newTheme s)) = fst (setTheme newTheme s)"
  by (simp add: setTheme_def Let_def)

text \<open>
  Claim C4. Let the active theme have the six categories of the schema, each at an address
  in use, and let the update hold one token \<open>k\<close> of one of these categories \<open>c\<close>. Then
  the theme \<^verbatim>\<open>getTheme\<close> returns after \<^verbatim>\<open>setTheme\<close> shows every other category as it was,
  every other token of \<open>c\<close> as it was, and the new value for \<open>k\<close>.
\<close>

theorem setTheme_category_shallow_merge:
  assumes cat: "c \<in> set theme_categories"
    and partial: "themeObjs s newTheme = [c \<mapsto> r]"
    and token: "categoryObjs s r = [k \<mapsto> x]"
    and has: "\<forall>c' \<in> set theme_categories. themeObjs s (activeTheme s) c' \<noteq> None"
    and allocated: "\<forall>c' r'. themeObjs s (activeTheme s) c' = Some r' \<longrightarrow> r' < nextObj s"
  shows "(\<forall>c'. c' \<noteq> c \<longrightarrow>
            theme_at (snd (getTheme (snd (setTheme newTheme s))))
              (fst (getTheme (snd (setTheme newTheme s)))) c' = theme_at s (activeTheme s) c')
       \<and> (\<forall>k'. k' \<noteq> k \<longrightarrow>
            theme_token (snd (getTheme (snd (setTheme newTheme s))))
              (fst (getTheme (snd (setTheme newTheme s)))) c k' = theme_token s (activeTheme s) c k')
       \<and> theme_token (snd (getTheme (snd (setTheme newTheme s))))
              (fst (getTheme (snd (setTheme newTheme s)))) c k = Some x"
proof -
  let ?s1 = "snd (setTheme newTheme s)"
  have view: "theme_at (snd (getTheme ?s1)) (fst (getTheme ?s1)) = theme_at ?s1 (fst (setTheme newTheme s))"
    by (simp add: theme_at_getTheme setTheme_returns_active)
  have other: "theme_at ?s1 (fst (setTheme newTheme s)) c' = theme_at s (activeTheme s) c'"
    if "c' \<noteq> c" for c'
  proof (cases "c' \<in> set theme_categories")
    case True
    with has obtain r' where r': "themeObjs s (activeTheme s) c' = Some r'" by auto
    from that partial have "spread_category s (themeObjs s newTheme) c' = Map.empty"
      by (simp add: spread_category_def)
    with True r' show ?thesis
      by (simp add: theme_at_setTheme_category) (simp add: spread_category_def theme_at_def)
  next
    case False
    from that partial have "(themeObjs s (activeTheme s) ++ themeObjs s newTheme) c'
        = themeObjs s (activeTheme s) c'"
      by (simp add: map_add_def)
    with theme_at_setTheme_other [OF False, of newTheme s]
    have eq: "theme_at ?s1 (fst (setTheme newTheme s)) c'
        = map_option (categoryObjs ?s1) (themeObjs s (activeTheme s) c')"
      by simp
    show ?thesis
    proof (cases "themeObjs s (activeTheme s) c'")
      case None
      then show ?thesis unfolding eq by (simp add: theme_at_def)
    next
      case (Some r')
      with allocated have "r' < nextObj s" by blast
      with Some show ?thesis
        unfolding eq by (simp add: theme_at_def categoryObjs_setTheme_old)
    qed
  qed
  from has cat obtain r0 where r0: "themeObjs s (activeTheme s) c = Some r0" by auto
  have touched: "theme_at ?s1 (fst (setTheme newTheme s)) c = Some ((categoryObjs s r0)(k \<mapsto> x))"
    using cat partial token r0 by (simp add: theme_at_setTheme_category spread_category_def)
  have before: "theme_at s (activeTheme s) c = Some (categoryObjs s r0)"
    using r0 by (simp add: theme_at_def)
  show ?thesis
    using other by (simp add: view theme_token_def touched before)
qed

text \<open>The update \<^verbatim>\<open>{colors: {primary: '#ff0000'}}\<close> on the default theme.\<close>

lemma primary_red_fields:
  "themeObjs primary_red 9 = [''colors'' \<mapsto> 8]"
  "categoryObjs primary_red 8 = [''primary'' \<mapsto> ''#ff0000'']"
  "activeTheme primary_red = 7"
  "nextObj primary_red = 10"
  "themeObjs primary_red 7 = default_theme_obj"
  by (simp_all add: primary_red_def new_theme_def new_category_def initial_def)

theorem setTheme_category_shallow_merge_witness:
  "''colors'' \<in> set theme_categories
   \<and> themeObjs primary_red 9 = [''colors'' \<mapsto> 8]
   \<and> categoryObjs primary_red 8 = [''primary'' \<mapsto> ''#ff0000'']
   \<and> theme_token primary_red (activeTheme primary_red) ''colors'' ''primary'' = Some ''#4a6cf7''
   \<and> theme_at (snd (getTheme (snd (setTheme 9 primary_red))))
        (fst (getTheme (snd (setTheme 9 primary_red)))) ''spacing''
      = theme_at primary_red (activeTheme primary_red) ''spacing''
   \<and> theme_token (snd (getTheme (snd (setTheme 9 primary_red))))
        (fst (getTheme (snd (setTheme 9 primary_red)))) ''colors'' ''secondary''
      = theme_token primary_red (activeTheme primary_red) ''colors'' ''secondary''
   \<and> theme_token (snd (getTheme (snd (setTheme 9 primary_red))))
        (fst (getTheme (snd (setTheme 9 primary_red)))) ''colors'' ''primary'' = Some ''#ff0000''"
proof -
  have cat: "''colors'' \<in> set theme_categories"
    by (simp add: theme_categories_def)
  have has: "\<forall>c' \<in> set theme_categories. themeObjs primary_red (activeTheme primary_red) c' \<noteq> None"
    by (simp add: primary_red_fields theme_categories_def default_theme_obj_def)
  have allocated: "\<forall>c' r'. themeObjs primary_red (activeTheme primary_red) c' = Some r'
      \<longrightarrow> r' < nextObj primary_red"
    by (auto simp add: primary_red_fields default_theme_obj_def split: if_splits)
  have before: "theme_token primary_red (activeTheme primary_red) ''colors'' ''primary'' = Some ''#4a6cf7''"
    by (simp add: theme_token_def theme_at_def primary_red_fields default_theme_obj_def)
       (simp add: primary_red_def new_theme_def new_category_def initial_def default_colors_def)
  note merge = setTheme_category_shallow_merge
    [OF cat primary_red_fields(1) primary_red_fields(2) has allocated]
  from merge have "theme_at (snd (getTheme (snd (setTheme 9 primary_red))))
        (fst (getTheme (snd (setTheme 9 primary_red)))) ''spacing''
      = theme_at primary_red (activeTheme primary_red) ''spacing''"
    by simp
  moreover from merge have "theme_token (snd (getTheme (snd (setTheme 9 primary_red))))
        (fst (getTheme (snd (setTheme 9 primary_red)))) ''colors'' ''secondary''
      = theme_token primary_red (activeTheme primary_red) ''colors'' ''secondary''"
    by simp
  moreover from merge have "theme_token (snd (getTheme (snd (setTheme 9 primary_red))))
        (fst (getTheme (snd (setTheme 9 primary_red)))) ''colors'' ''primary'' = Some ''#ff0000''"
    by simp
  ultimately show ?thesis
    using cat before primary_red_fields(1,2) by simp
qed

text \<open>
  Claim C6. \<^verbatim>\<open>getTheme\<close> returns a copy that no mutation can carry into the active theme.
  The code copies one level only: the theme object returned is new, its category objects
  are those of the active theme. After \<^verbatim>\<open>getTheme().colors.primary = '#000000'\<close> the active
  theme, a later \<^verbatim>\<open>getTheme()\<close>, and, the default theme sharing the same objects, also the
  theme after \<^verbatim>\<open>resetTheme()\<close> show the new value.
\<close>

theorem getTheme_shares_category_objects:
  "(case assign_token (fst (getTheme initial)) ''colors'' ''primary'' ''#000000'' (snd (getTheme initial)) of
      Inl e \<Rightarrow> False
    | Inr s \<Rightarrow>
        theme_token initial (activeTheme initial) ''colors'' ''primary'' = Some ''#4a6cf7''
      \<and> theme_token s (activeTheme s) ''colors'' ''primary'' = Some ''#000000''
      \<and> theme_token (snd (getTheme s)) (fst (getTheme s)) ''colors'' ''primary'' = Some ''#000000''
      \<and> theme_token (snd (getTheme (snd (resetTheme s)))) (fst (getTheme (snd (resetTheme s))))
          ''colors'' ''primary'' = Some ''#000000'')"
  by (simp add: assign_token_def getTheme_def resetTheme_def theme_token_def theme_at_def
      initial_def default_theme_obj_def default_colors_def defaultTheme_def)

section \<open>The style sheet along a run\<close>

lemma sheet_inv_css: "sheet_inv s \<Longrightarrow> sheet_inv (snd (css d s))"
  using rule_class_rule [of "uniqueId s" "cssString d s"]
  by (cases "styleCache s (style_hash (cssString d s))")
     (simp_all add: css_miss css_hit sheet_inv_def)

lemma update_node_sheet [simp]:
  "cssRules (update_node n f s) = cssRules s" "uniqueId (update_node n f s) = uniqueId s"
  by (simp_all add: update_node_def)

lemma removeChild_sheet [simp]:
  "cssRules (removeChild p c s) = cssRules s" "uniqueId (removeChild p c s) = uniqueId s"
  by (simp_all add: removeChild_def)

lemma appendChild_sheet [simp]:
  "cssRules (appendChild p c s) = cssRules s" "uniqueId (appendChild p c s) = uniqueId s"
  by (simp_all add: appendChild_def Let_def split: dom_child.splits option.splits)

lemma set_textContent_fold_sheet:
  "cssRules (fold (\<lambda>k s'. case k of ElementNode c \<Rightarrow> update_node c g s' | TextNode x \<Rightarrow> s') ks s) = cssRules s
   \<and> uniqueId (fold (\<lambda>k s'. case k of ElementNode c \<Rightarrow> update_node c g s' | TextNode x \<Rightarrow> s') ks s) = uniqueId s"
  by (induction ks arbitrary: s) (simp_all split: dom_child.splits)

lemma set_textContent_sheet [simp]:
  "cssRules (set_textContent n t s) = cssRules s" "uniqueId (set_textContent n t s) = uniqueId s"
  by (simp_all add: set_textContent_def set_textContent_fold_sheet)

lemma addEventListener_sheet [simp]:
  "cssRules (addEventListener n e f s) = cssRules s" "uniqueId (addEventListener n e f s) = uniqueId s"
  by (simp_all add: addEventListener_def)

lemma set_property_sheet [simp]:
  "cssRules (set_property n k v s) = cssRules s" "uniqueId (set_property n k v s) = uniqueId s"
  by (simp_all add: set_property_def)

lemma animate_sheet [simp]:
  "cssRules (snd (animate e k opts s)) = cssRules s" "uniqueId (snd (animate e k opts s)) = uniqueId s"
  by (simp_all add: animate_def split: option.splits)

lemma cleanup_sheet [simp]:
  "cssRules (cleanup ov m s) = cssRules s" "uniqueId (cleanup ov m s) = uniqueId s"
  by (simp_all add: cleanup_def Let_def split_beta split: option.splits)

lemma invoke_sheet [simp]:
  "cssRules (invoke f a s) = cssRules s" "uniqueId (invoke f a s) = uniqueId s"
  by (cases f; simp split: arg.splits option.splits)+

lemma apply_rest_sheet [simp]:
  "cssRules (apply_rest el kv s) = cssRules s" "uniqueId (apply_rest el kv s) = uniqueId s"
  by (simp_all add: apply_rest_def split: prod.splits prop_value.splits)

lemma fold_apply_rest_sheet [simp]:
  "cssRules (fold (apply_rest el) kvs s) = cssRules s" "uniqueId (fold (apply_rest el) kvs s) = uniqueId s"
  by (induction kvs arbitrary: s) simp_all

lemma apply_className_sheet [simp]:
  "cssRules (apply_className cn el s) = cssRules s" "uniqueId (apply_className cn el s) = uniqueId s"
  by (simp_all add: apply_className_def split: class_prop.splits)

lemma append_children_sheet [simp]:
  "cssRules (snd (append_children cs el s)) = cssRules s"
  "uniqueId (snd (append_children cs el s)) = uniqueId s"
  by (induction cs el s rule: append_children.induct) (simp_all split: jsval.splits)

lemma apply_children_sheet [simp]:
  "cssRules (snd (apply_children ch el s)) = cssRules s"
  "uniqueId (snd (apply_children ch el s)) = uniqueId s"
  by (simp_all add: apply_children_def split: children_prop.splits child.splits jsval.splits)

lemma document_createElement_sheet [simp]:
  "cssRules (snd (document_createElement t s)) = cssRules s"
  "uniqueId (snd (document_createElement t s)) = uniqueId s"
  by (simp_all add: document_createElement_def)

lemma apply_style_sheet [simp]:
  "cssRules (apply_style st el s) = cssRules s" "uniqueId (apply_style st el s) = uniqueId s"
  by (simp_all add: apply_style_def split: option.splits)

lemma apply_dataset_sheet [simp]:
  "cssRules (apply_dataset d el s) = cssRules s" "uniqueId (apply_dataset d el s) = uniqueId s"
  by (simp_all add: apply_dataset_def split: option.splits)

lemma sheet_inv_apply_cssStyles: "sheet_inv s \<Longrightarrow> sheet_inv (apply_cssStyles cs el s)"
proof (cases cs)
  case None
  then show "sheet_inv s \<Longrightarrow> ?thesis" by (simp add: apply_cssStyles_def)
next
  case (Some d)
  assume "sheet_inv s"
  then have "sheet_inv (snd (css d s))" by (rule sheet_inv_css)
  with Some show ?thesis
    by (simp add: apply_cssStyles_def split_beta sheet_inv_def)
qed

lemma snd_case_sum [simp]:
  "snd (case r of Inl e \<Rightarrow> (f e, s) | Inr x \<Rightarrow> (g x, s)) = s"
  by (cases r) simp_all

lemma createElement_sheet:
  "cssRules (snd (createElement t p s)) =
     cssRules (apply_cssStyles (cssStyles p) (nextNode s) (snd (document_createElement t s)))"
  "uniqueId (snd (createElement t p s)) =
     uniqueId (apply_cssStyles (cssStyles p) (nextNode s) (snd (document_createElement t s)))"
  by (simp_all add: createElement_def configure_element_def Let_def split_beta
      document_createElement_def)

lemma sheet_inv_createElement: "sheet_inv s \<Longrightarrow> sheet_inv (snd (createElement t p s))"
proof -
  assume "sheet_inv s"
  then have "sheet_inv (snd (document_createElement t s))"
    by (simp add: sheet_inv_def)
  then have "sheet_inv (apply_cssStyles (cssStyles p) (nextNode s) (snd (document_createElement t s)))"
    by (rule sheet_inv_apply_cssStyles)
  then show ?thesis
    by (simp add: sheet_inv_def createElement_sheet)
qed

lemma sheet_inv_and_then:
  assumes "sheet_inv (snd r)" and "\<And>a s'. sheet_inv s' \<Longrightarrow> sheet_inv (snd (f a s'))"
  shows "sheet_inv (snd (and_then r f))"
  using assms by (cases r; cases "fst r") (auto simp add: and_then_def)

lemma sheet_inv_createElement_if:
  "sheet_inv s \<Longrightarrow> sheet_inv (snd (createElement_if b t p s))"
  by (auto simp add: createElement_if_def intro!: sheet_inv_and_then sheet_inv_createElement)

lemma mount_modal_sheet [simp]:
  "cssRules (mount_modal cb m ov s) = cssRules s" "uniqueId (mount_modal cb m ov s) = uniqueId s"
  by (simp_all add: mount_modal_def Let_def)

lemma sheet_inv_Modal: "sheet_inv s \<Longrightarrow> sheet_inv (snd (Modal p s))"
  unfolding Modal_def createComponent_def Modal_render_def
  by (auto intro!: sheet_inv_and_then sheet_inv_createElement sheet_inv_createElement_if
      simp add: Let_def) (simp_all add: sheet_inv_def)

lemma fold_invoke_sheet [simp]:
  "cssRules (fold (\<lambda>f. invoke f a) fs s) = cssRules s"
  "uniqueId (fold (\<lambda>f. invoke f a) fs s) = uniqueId s"
  by (induction fs arbitrary: s) simp_all

lemma dispatch_fold_sheet:
  "cssRules (fold (\<lambda>cur s'. fold (\<lambda>f. invoke f (EventArg t cur)) (listeners_for name (nodes s' cur)) s') path s)
     = cssRules s
   \<and> uniqueId (fold (\<lambda>cur s'. fold (\<lambda>f. invoke f (EventArg t cur)) (listeners_for name (nodes s' cur)) s') path s)
     = uniqueId s"
  by (induction path arbitrary: s) simp_all

lemma step_sheet [simp]:
  "cssRules (step e s) = cssRules s" "uniqueId (step e s) = uniqueId s"
  by (cases e; simp add: dispatch_def dispatch_fold_sheet Let_def
        split: option.splits prop_value.splits)+

lemma sheet_inv_run_op: "sheet_inv s \<Longrightarrow> sheet_inv (run_op op s)"
proof (cases op)
  case (OpCss d)
  then show "sheet_inv s \<Longrightarrow> ?thesis" by (simp add: sheet_inv_css)
next
  case (OpCreateElement t p)
  then show "sheet_inv s \<Longrightarrow> ?thesis" by (simp add: sheet_inv_createElement)
next
  case (OpModal p)
  then show "sheet_inv s \<Longrightarrow> ?thesis" by (simp add: sheet_inv_Modal)
next
  case (OpSetTheme a)
  then show "sheet_inv s \<Longrightarrow> ?thesis" by (simp add: sheet_inv_def setTheme_def Let_def)
next
  case OpGetTheme
  then show "sheet_inv s \<Longrightarrow> ?thesis" by (simp add: sheet_inv_def getTheme_def)
next
  case OpResetTheme
  then show "sheet_inv s \<Longrightarrow> ?thesis" by (simp add: sheet_inv_def resetTheme_def)
next
  case (OpEvent e)
  then show "sheet_inv s \<Longrightarrow> ?thesis" by (simp add: sheet_inv_def)
next
  case (OpNewCategory tokens)
  then show "sheet_inv s \<Longrightarrow> ?thesis" by (simp add: sheet_inv_def new_category_def)
next
  case (OpNewTheme categories)
  then show "sheet_inv s \<Longrightarrow> ?thesis" by (simp add: sheet_inv_def new_theme_def)
next
  case (OpAssignToken t c k v)
  then show "sheet_inv s \<Longrightarrow> ?thesis"
    by (auto simp add: sheet_inv_def assign_token_def split: option.splits)
qed

lemma sheet_inv_run: "sheet_inv s \<Longrightarrow> sheet_inv (run ops s)"
  by (induction ops arbitrary: s) (simp_all add: sheet_inv_run_op)

lemma sheet_inv_initial: "sheet_inv initial"
  by (simp add: sheet_inv_def)

lemma distinct_style_classes: "distinct (map style_class [0..<n])"
  by (simp add: distinct_map inj_on_def style_class_inj)

text \<open>
  Claim C8. Whatever a program does with the module from its load on, the rules of the
  style sheet have pairwise distinct class names: they are the names of the counter values
  \<open>0\<close> up to the current one, each once, also across changes of the theme.
\<close>

theorem stylesheet_class_names_distinct:
  "distinct (map rule_class (cssRules (run ops initial)))
   \<and> map rule_class (cssRules (run ops initial)) = map style_class [0..<uniqueId (run ops initial)]"
proof -
  have "sheet_inv (run ops initial)"
    using sheet_inv_initial by (rule sheet_inv_run)
  then show ?thesis
    by (simp add: sheet_inv_def distinct_style_classes)
qed

section \<open>Properties of the element builder\<close>

text \<open>Evaluation of \<^verbatim>\<open>createElement\<close> on given properties.\<close>

lemmas dom_eval = createElement_def configure_element_def document_createElement_def apply_cssStyles_def
  apply_className_def apply_style_def apply_dataset_def apply_rest_def apply_children_def
  update_node_def classList_add_def classList_def is_space_def appendChild_def removeChild_def
  set_textContent_def addEventListener_def set_property_def no_props_def empty_element_def

lemma initial_dom [simp]:
  "nextNode initial = 1" "animations initial = []" "calls initial = []"
  by (simp_all add: initial_def)

text \<open>
  Claim C1. A node built from a style description and a literal \<^verbatim>\<open>className\<close> carries both
  the generated class and the literal one. The code does not do this: the generated class
  is added to the class list first, and the assignment \<^verbatim>\<open>element.className = className\<close>
  then replaces the whole class attribute. For \<^verbatim>\<open>{cssStyles: {color: 'red'}, className: 'foo'}\<close>
  the rule of \<^verbatim>\<open>zen-style-0\<close> is in the style sheet and the class is on the node after the
  second step, but the node returned has the class \<^verbatim>\<open>foo\<close> only.
\<close>

theorem createElement_className_erases_generated_class:
  "(let p = no_props\<lparr>cssStyles := Some (StaticStyles [(''color'', Lit ''red'')]),
                      className := ClassVal (Str ''foo'')\<rparr>;
        s1 = snd (document_createElement ''div'' initial);
        s2 = apply_cssStyles (cssStyles p) 1 s1;
        r = createElement ''div'' p initial
    in classList (nodes s2 1) = [''zen-style-0'']
     \<and> fst r = Inr 1
     \<and> cssRules (snd r) = [''.zen-style-0 { color: red; }'']
     \<and> el_className (nodes (snd r) 1) = ''foo''
     \<and> classList (nodes (snd r) 1) = [''foo'']
     \<and> ''zen-style-0'' \<notin> set (classList (nodes (snd r) 1)))"
  by (simp add: dom_eval css_eval initial_def)


lemma falsy_values: "(\<not> truthy v) = (v \<in> {Undefined, Null, Bool False, Num 0, Str []})"
  by (cases v) auto

lemma apply_children_falsy:
  "\<not> truthy v \<Longrightarrow> apply_children (Single (Prim v)) el s = (Inr (), s)"
  by (simp add: apply_children_def)

lemma configure_element_children [simp]:
  "configure_element t (p\<lparr>children := ch\<rparr>) s = configure_element t p s"
  by (simp add: configure_element_def)

lemma fst_configure_element [simp]: "fst (configure_element t p s) = nextNode s"
  by (simp add: configure_element_def Let_def split_beta document_createElement_def)

lemma createElement_absent:
  "\<not> truthy v \<Longrightarrow>
   createElement t (p\<lparr>children := Single (Prim v)\<rparr>) s = (Inr (nextNode s), snd (configure_element t p s))"
  by (simp add: createElement_def Let_def split_beta apply_children_falsy)

lemma createElement_text:
  "txt \<noteq> [] \<Longrightarrow>
   createElement t (p\<lparr>children := Single (Prim (Str txt))\<rparr>) s
     = (Inr (nextNode s), set_textContent (nextNode s) txt (snd (configure_element t p s)))"
  by (simp add: createElement_def Let_def split_beta apply_children_def)

lemma createElement_raise:
  "truthy w \<Longrightarrow> \<forall>txt. w \<noteq> Str txt \<Longrightarrow>
   fst (createElement t (p\<lparr>children := Single (Prim w)\<rparr>) s) = Inl TypeError"
  by (cases w) (simp_all add: createElement_def Let_def split_beta apply_children_def)

text \<open>
  Claim C9. A single value of \<^verbatim>\<open>children\<close> that is falsy, one of \<^verbatim>\<open>undefined\<close>, \<^verbatim>\<open>null\<close>,
  \<^verbatim>\<open>false\<close>, \<open>0\<close> and the empty string, gives the very result of absent children: the
  node as it is before the children are looked at, nothing appended, no text set or
  cleared. A non-empty string sets the text content of that node; a truthy value that is
  neither a string nor a node raises.
\<close>

theorem createElement_falsy_children_absent:
  assumes "\<not> truthy v"
  shows "v \<in> {Undefined, Null, Bool False, Num 0, Str []}
       \<and> createElement t (p\<lparr>children := Single (Prim v)\<rparr>) s
           = createElement t (p\<lparr>children := Single (Prim Undefined)\<rparr>) s
       \<and> createElement t (p\<lparr>children := Single (Prim v)\<rparr>) s
           = (Inr (nextNode s), snd (configure_element t p s))
       \<and> (\<forall>txt. txt \<noteq> [] \<longrightarrow>
             createElement t (p\<lparr>children := Single (Prim (Str txt))\<rparr>) s
               = (Inr (nextNode s),
                  set_textContent (nextNode s) txt
                    (snd (createElement t (p\<lparr>children := Single (Prim v)\<rparr>) s))))
       \<and> (\<forall>w. truthy w \<and> (\<forall>txt. w \<noteq> Str txt) \<longrightarrow>
             fst (createElement t (p\<lparr>children := Single (Prim w)\<rparr>) s) = Inl TypeError)"
proof -
  from assms have "v \<in> {Undefined, Null, Bool False, Num 0, Str []}"
    by (simp only: falsy_values)
  with assms show ?thesis
    by (simp add: createElement_absent createElement_text createElement_raise)
qed

text \<open>The empty string, the text \<^verbatim>\<open>hi\<close> and the number 5 as the children of a paragraph.\<close>

theorem createElement_falsy_children_absent_witness:
  "\<not> truthy (Str [])
   \<and> createElement ''p'' (no_props\<lparr>children := Single (Prim (Str []))\<rparr>) initial
       = createElement ''p'' (no_props\<lparr>children := Single (Prim Undefined)\<rparr>) initial
   \<and> childNodes (nodes (snd (createElement ''p'' (no_props\<lparr>children := Single (Prim (Str []))\<rparr>) initial)) 1)
       = []
   \<and> createElement ''p'' (no_props\<lparr>children := Single (Prim (Str ''hi''))\<rparr>) initial
       = (Inr (nextNode initial),
          set_textContent (nextNode initial) ''hi''
            (snd (createElement ''p'' (no_props\<lparr>children := Single (Prim (Str []))\<rparr>) initial)))
   \<and> childNodes (nodes (snd (createElement ''p'' (no_props\<lparr>children := Single (Prim (Str ''hi''))\<rparr>) initial)) 1)
       = [TextNode ''hi'']
   \<and> fst (createElement ''p'' (no_props\<lparr>children := Single (Prim (Num 5))\<rparr>) initial) = Inl TypeError"
proof -
  have h: "\<not> truthy (Str [])" by simp
  note c = createElement_falsy_children_absent [OF h, of "''p''" no_props initial]
  have kids: "childNodes (nodes (snd (createElement ''p'' (no_props\<lparr>children := Single (Prim (Str []))\<rparr>) initial)) 1) = []"
    by (simp add: dom_eval Let_def initial_def)
  have hi: "childNodes (nodes (snd (createElement ''p'' (no_props\<lparr>children := Single (Prim (Str ''hi''))\<rparr>) initial)) 1)
       = [TextNode ''hi'']"
    by (simp add: dom_eval Let_def initial_def)
  from c have "createElement ''p'' (no_props\<lparr>children := Single (Prim (Str ''hi''))\<rparr>) initial
       = (Inr (nextNode initial),
          set_textContent (nextNode initial) ''hi''
            (snd (createElement ''p'' (no_props\<lparr>children := Single (Prim (Str []))\<rparr>) initial)))"
    by simp
  moreover from c have "fst (createElement ''p'' (no_props\<lparr>children := Single (Prim (Num 5))\<rparr>) initial) = Inl TypeError"
    by simp
  moreover from c have "createElement ''p'' (no_props\<lparr>children := Single (Prim (Str []))\<rparr>) initial
       = createElement ''p'' (no_props\<lparr>children := Single (Prim Undefined)\<rparr>) initial"
    by simp
  ultimately show ?thesis
    using h kids hi by simp
qed

section \<open>Properties of the modal\<close>

subsection \<open>The counter of elements\<close>

lemma nextNode_update_node [simp]: "nextNode (update_node n f s) = nextNode s"
  by (simp add: update_node_def)

lemma nextNode_removeChild [simp]: "nextNode (removeChild p c s) = nextNode s"
  by (simp add: removeChild_def)

lemma nextNode_appendChild [simp]: "nextNode (appendChild p c s) = nextNode s"
  by (simp add: appendChild_def Let_def split: dom_child.splits option.splits)

lemma nextNode_clear_fold:
  "nextNode (fold (\<lambda>k s'. case k of ElementNode c \<Rightarrow> update_node c g s' | TextNode x \<Rightarrow> s') ks s)
     = nextNode s"
  by (induction ks arbitrary: s) (simp_all split: dom_child.splits)

lemma nextNode_set_textContent [simp]: "nextNode (set_textContent n t s) = nextNode s"
  by (simp add: set_textContent_def nextNode_clear_fold)

lemma nextNode_addEventListener [simp]: "nextNode (addEventListener n e f s) = nextNode s"
  by (simp add: addEventListener_def)

lemma nextNode_set_property [simp]: "nextNode (set_property n k v s) = nextNode s"
  by (simp add: set_property_def)

lemma nextNode_animate [simp]: "nextNode (snd (animate e k opts s)) = nextNode s"
  by (simp add: animate_def split: option.splits)

lemma nextNode_cleanup [simp]: "nextNode (cleanup ov m s) = nextNode s"
  by (simp add: cleanup_def Let_def split_beta split: option.splits)

lemma nextNode_invoke [simp]: "nextNode (invoke f a s) = nextNode s"
  by (cases f; simp split: arg.splits option.splits)

lemma nextNode_apply_rest [simp]: "nextNode (apply_rest el kv s) = nextNode s"
  by (simp add: apply_rest_def split: prod.splits prop_value.splits)

lemma nextNode_fold_apply_rest [simp]: "nextNode (fold (apply_rest el) kvs s) = nextNode s"
  by (induction kvs arbitrary: s) simp_all

lemma nextNode_apply_className [simp]: "nextNode (apply_className cn el s) = nextNode s"
  by (simp add: apply_className_def split: class_prop.splits)

lemma nextNode_apply_style [simp]: "nextNode (apply_style st el s) = nextNode s"
  by (simp add: apply_style_def split: option.splits)

lemma nextNode_apply_dataset [simp]: "nextNode (apply_dataset d el s) = nextNode s"
  by (simp add: apply_dataset_def split: option.splits)

lemma nextNode_css [simp]: "nextNode (snd (css d s)) = nextNode s"
  by (cases "styleCache s (style_hash (cssString d s))") (simp_all add: css_miss css_hit)

lemma nextNode_apply_cssStyles [simp]: "nextNode (apply_cssStyles cs el s) = nextNode s"
  by (simp add: apply_cssStyles_def split_beta split: option.splits)

lemma nextNode_append_children [simp]: "nextNode (snd (append_children cs el s)) = nextNode s"
  by (induction cs el s rule: append_children.induct) (simp_all split: jsval.splits)

lemma nextNode_apply_children [simp]: "nextNode (snd (apply_children ch el s)) = nextNode s"
  by (simp add: apply_children_def split: children_prop.splits child.splits jsval.splits)

lemma nextNode_configure_element [simp]:
  "nextNode (snd (configure_element t p s)) = Suc (nextNode s)"
  by (simp add: configure_element_def Let_def split_beta document_createElement_def)

lemma nextNode_createElement [simp]:
  "nextNode (snd (createElement t p s)) = Suc (nextNode s)"
  by (simp add: createElement_def Let_def split_beta)

lemma fst_createElement:
  "fst (createElement t p s) = Inr el \<Longrightarrow> el = nextNode s"
  by (simp add: createElement_def Let_def split_beta split: sum.splits)

subsection \<open>What keeps an element apart\<close>

lemma apart_removeChild: "apart cb ov s \<Longrightarrow> apart cb ov (removeChild p c s)"
  by (auto simp add: apart_def removeChild_def update_node_def)

lemma apart_appendChild_text: "apart cb ov s \<Longrightarrow> apart cb ov (appendChild p (TextNode t) s)"
  by (auto simp add: apart_def appendChild_def update_node_def)

lemma apart_appendChild:
  "apart cb ov s \<Longrightarrow> p \<noteq> cb \<Longrightarrow> c \<noteq> cb \<Longrightarrow> apart cb ov (appendChild p (ElementNode c) s)"
  by (auto simp add: apart_def appendChild_def removeChild_def update_node_def Let_def
      split: option.splits)

lemma apart_clear_fold:
  "apart cb ov s \<Longrightarrow>
   apart cb ov (fold (\<lambda>k s'. case k of
       ElementNode c \<Rightarrow> update_node c (\<lambda>e. e\<lparr>parentNode := None\<rparr>) s' | TextNode x \<Rightarrow> s') ks s)"
proof (induction ks arbitrary: s)
  case Nil
  then show ?case by simp
next
  case (Cons k ks)
  have "apart cb ov (case k of
       ElementNode c \<Rightarrow> update_node c (\<lambda>e. e\<lparr>parentNode := None\<rparr>) s | TextNode x \<Rightarrow> s)"
    using Cons.prems by (auto simp add: apart_def update_node_def split: dom_child.splits)
  then show ?case using Cons.IH by simp
qed

lemma apart_set_textContent: "apart cb ov s \<Longrightarrow> apart cb ov (set_textContent n t s)"
proof -
  assume "apart cb ov s"
  then have "apart cb ov (fold (\<lambda>k s'. case k of
       ElementNode c \<Rightarrow> update_node c (\<lambda>e. e\<lparr>parentNode := None\<rparr>) s' | TextNode x \<Rightarrow> s')
       (childNodes (nodes s n)) s)"
    by (rule apart_clear_fold)
  then show ?thesis
    unfolding set_textContent_def
    by (auto simp add: apart_def update_node_def)
qed

lemma apart_addEventListener:
  "apart cb ov s \<Longrightarrow> \<not> mentions ov f \<Longrightarrow> apart cb ov (addEventListener n name f s)"
  by (auto simp add: apart_def addEventListener_def update_node_def)

lemma set_AList_update: "x \<in> set (AList.update k v al) \<Longrightarrow> x = (k, v) \<or> x \<in> set al"
  by (induction al) (auto split: if_splits)

lemma apart_set_property:
  "apart cb ov s \<Longrightarrow> \<forall>f. v = PFunc f \<longrightarrow> \<not> mentions ov f \<Longrightarrow> apart cb ov (set_property n key v s)"
  by (auto simp add: apart_def set_property_def update_node_def dest!: set_AList_update)

lemma apart_animate: "apart cb ov s \<Longrightarrow> apart cb ov (snd (animate e k opts s))"
  by (auto simp add: apart_def animate_def split: option.splits)

lemma apart_cleanup: "apart cb ov s \<Longrightarrow> overlay \<noteq> ov \<Longrightarrow> apart cb ov (cleanup overlay m s)"
  by (auto simp add: apart_def cleanup_def animate_def Let_def nth_append
      dest!: set_update_subset_insert [THEN subsetD])

lemma apart_invoke: "apart cb ov s \<Longrightarrow> \<not> mentions ov f \<Longrightarrow> apart cb ov (invoke f a s)"
proof (cases f)
  case (UserFn x)
  then show "apart cb ov s \<Longrightarrow> ?thesis" by (simp add: apart_def)
next
  case (HandleOverlayClick h)
  then show "apart cb ov s \<Longrightarrow> ?thesis"
    by (auto simp add: apart_def split: arg.splits option.splits)
next
  case (Cleanup overlay m)
  then show "apart cb ov s \<Longrightarrow> \<not> mentions ov f \<Longrightarrow> ?thesis"
    by (simp add: apart_cleanup)
next
  case (OverlayAnimFinish overlay)
  then show "apart cb ov s \<Longrightarrow> ?thesis"
    by (simp add: apart_removeChild split: option.splits)
qed

lemma css_dom [simp]:
  "nodes (snd (css d s)) = nodes s" "animations (snd (css d s)) = animations s"
  by (cases "styleCache s (style_hash (cssString d s))"; simp add: css_miss css_hit)+

lemma apart_document_createElement:
  "apart cb ov s \<Longrightarrow> nextNode s \<noteq> cb \<Longrightarrow> apart cb ov (snd (document_createElement t s))"
  by (auto simp add: apart_def document_createElement_def empty_element_def)

lemma apart_apply_cssStyles: "apart cb ov s \<Longrightarrow> apart cb ov (apply_cssStyles cs el s)"
  by (auto simp add: apart_def apply_cssStyles_def split_beta update_node_def classList_add_def
      split: option.splits)

lemma apart_apply_className: "apart cb ov s \<Longrightarrow> apart cb ov (apply_className cn el s)"
  by (auto simp add: apart_def apply_className_def update_node_def split: class_prop.splits)

lemma apart_apply_style: "apart cb ov s \<Longrightarrow> apart cb ov (apply_style st el s)"
  by (auto simp add: apart_def apply_style_def update_node_def split: option.splits)

lemma apart_apply_dataset: "apart cb ov s \<Longrightarrow> apart cb ov (apply_dataset d el s)"
  by (auto simp add: apart_def apply_dataset_def update_node_def split: option.splits)

lemma apart_apply_rest:
  assumes "apart cb ov s" and "\<forall>f. snd kv = PFunc f \<longrightarrow> \<not> mentions ov f"
  shows "apart cb ov (apply_rest el kv s)"
proof (cases kv)
  case (Pair key v)
  show ?thesis
  proof (cases v)
    case (PVal x)
    with Pair assms show ?thesis
      by (simp add: apply_rest_def apart_set_property)
  next
    case (PFunc f)
    with Pair assms have "\<not> mentions ov f" by simp
    with Pair PFunc assms(1) show ?thesis
      by (simp add: apply_rest_def apart_addEventListener apart_invoke apart_set_property)
  qed
qed

lemma apart_fold_apply_rest:
  assumes "apart cb ov s" and "\<forall>kv \<in> set kvs. \<forall>f. snd kv = PFunc f \<longrightarrow> \<not> mentions ov f"
  shows "apart cb ov (fold (apply_rest el) kvs s)"
  using assms
proof (induction kvs arbitrary: s)
  case Nil
  then show ?case by simp
next
  case (Cons kv kvs)
  have "apart cb ov (apply_rest el kv s)"
    using Cons.prems by (intro apart_apply_rest) simp_all
  then show ?case using Cons by simp
qed

lemma apart_configure_from:
  assumes "apart cb ov (snd (document_createElement t s))"
    and "\<forall>kv \<in> set (rest p). \<forall>f. snd kv = PFunc f \<longrightarrow> \<not> mentions ov f"
  shows "apart cb ov (snd (configure_element t p s))"
  using assms
  by (simp add: configure_element_def Let_def split_beta)
     (intro apart_fold_apply_rest apart_apply_dataset apart_apply_style apart_apply_className
        apart_apply_cssStyles; simp)

lemma apart_configure_element:
  assumes "apart cb ov s" and "nextNode s \<noteq> cb"
    and "\<forall>kv \<in> set (rest p). \<forall>f. snd kv = PFunc f \<longrightarrow> \<not> mentions ov f"
  shows "apart cb ov (snd (configure_element t p s))"
  using assms by (intro apart_configure_from apart_document_createElement)

lemma apart_append_children:
  assumes "apart cb ov s" and "el \<noteq> cb" and "Node cb \<notin> set cs"
  shows "apart cb ov (snd (append_children cs el s))"
  using assms
proof (induction cs el s rule: append_children.induct)
  case (1 el s)
  then show ?case by simp
next
  case (2 n cs el s)
  then have "apart cb ov (appendChild el (ElementNode n) s)"
    by (auto intro: apart_appendChild)
  with 2 show ?case by simp
next
  case (3 v cs el s)
  show ?case
  proof (cases "truthy v")
    case True
    show ?thesis
    proof (cases v)
      case (Str t)
      have "apart cb ov (appendChild el (TextNode t) s)"
        using 3(3) by (rule apart_appendChild_text)
      with 3 True Str show ?thesis by simp
    qed (use 3 True in simp_all)
  next
    case False
    with 3 show ?thesis by simp
  qed
qed

lemma apart_apply_children:
  assumes "apart cb ov s" and "el \<noteq> cb" and "Node cb \<notin> set (children_list ch)"
  shows "apart cb ov (snd (apply_children ch el s))"
proof (cases ch)
  case (Many cs)
  with assms show ?thesis by (simp add: apply_children_def apart_append_children)
next
  case (Single c)
  show ?thesis
  proof (cases c)
    case (Node n)
    with assms Single show ?thesis by (simp add: apply_children_def apart_appendChild)
  next
    case (Prim v)
    with assms Single show ?thesis
      by (cases v) (simp_all add: apply_children_def apart_set_textContent)
  qed
qed

lemma apart_createElement:
  assumes "apart cb ov s" and "nextNode s \<noteq> cb" and "Node cb \<notin> set (children_list (children p))"
    and "\<forall>kv \<in> set (rest p). \<forall>f. snd kv = PFunc f \<longrightarrow> \<not> mentions ov f"
  shows "apart cb ov (snd (createElement t p s))"
proof -
  have "apart cb ov (snd (configure_element t p s))"
    using assms(1,2,4) by (rule apart_configure_element)
  then have "apart cb ov (snd (apply_children (children p) (nextNode s) (snd (configure_element t p s))))"
    using assms(2,3) by (auto intro: apart_apply_children)
  then show ?thesis
    by (simp add: createElement_def Let_def split_beta)
qed

subsection \<open>A new element before its children\<close>

lemma fresh_leaf_update_node:
  "fresh_leaf el s \<Longrightarrow> (\<And>e. childNodes (f e) = childNodes e \<and> parentNode (f e) = parentNode e)
     \<Longrightarrow> fresh_leaf el (update_node n f s)"
  by (auto simp add: fresh_leaf_def update_node_def)

lemma fresh_leaf_removeChild: "fresh_leaf el s \<Longrightarrow> fresh_leaf el (removeChild p c s)"
  by (auto simp add: fresh_leaf_def removeChild_def update_node_def)

lemma fresh_leaf_invoke: "fresh_leaf el s \<Longrightarrow> fresh_leaf el (invoke f a s)"
proof (cases f)
  case (UserFn x)
  then show "fresh_leaf el s \<Longrightarrow> ?thesis" by (simp add: fresh_leaf_def)
next
  case (HandleOverlayClick h)
  then show "fresh_leaf el s \<Longrightarrow> ?thesis"
    by (simp add: fresh_leaf_def split: arg.splits option.splits)
next
  case (Cleanup overlay m)
  then show "fresh_leaf el s \<Longrightarrow> ?thesis"
    by (simp add: fresh_leaf_def cleanup_def animate_def Let_def)
next
  case (OverlayAnimFinish overlay)
  then show "fresh_leaf el s \<Longrightarrow> ?thesis"
    by (simp add: fresh_leaf_removeChild split: option.splits)
qed

lemma fresh_leaf_apply_rest: "fresh_leaf el s \<Longrightarrow> fresh_leaf el (apply_rest n kv s)"
  by (cases kv; cases "snd kv")
     (auto simp add: apply_rest_def fresh_leaf_invoke addEventListener_def set_property_def
        intro!: fresh_leaf_update_node)

lemma fresh_leaf_fold_apply_rest: "fresh_leaf el s \<Longrightarrow> fresh_leaf el (fold (apply_rest n) kvs s)"
  by (induction kvs arbitrary: s) (simp_all add: fresh_leaf_apply_rest)

lemma fresh_leaf_configure_element:
  "fresh_leaf (nextNode s) (snd (configure_element t p s))"
proof -
  have "fresh_leaf (nextNode s) (snd (document_createElement t s))"
    by (simp add: fresh_leaf_def document_createElement_def empty_element_def)
  then have "fresh_leaf (nextNode s)
      (apply_cssStyles (cssStyles p) (nextNode s) (snd (document_createElement t s)))"
    by (auto simp add: fresh_leaf_def apply_cssStyles_def split_beta update_node_def
        classList_add_def split: option.splits)
  then have "fresh_leaf (nextNode s)
      (apply_className (className p) (nextNode s)
        (apply_cssStyles (cssStyles p) (nextNode s) (snd (document_createElement t s))))"
    by (auto simp add: fresh_leaf_def apply_className_def update_node_def split: class_prop.splits)
  then have "fresh_leaf (nextNode s)
      (apply_dataset (dataset p) (nextNode s)
        (apply_style (style p) (nextNode s)
          (apply_className (className p) (nextNode s)
            (apply_cssStyles (cssStyles p) (nextNode s) (snd (document_createElement t s))))))"
    by (auto simp add: fresh_leaf_def apply_style_def apply_dataset_def update_node_def
        split: option.splits)
  then show ?thesis
    by (simp add: configure_element_def Let_def split_beta fresh_leaf_fold_apply_rest
        document_createElement_def)
qed

subsection \<open>Appending\<close>

lemma parentNode_appendChild_child:
  "parentNode (nodes (appendChild p (ElementNode c) s) c) = Some p"
  by (simp add: appendChild_def update_node_def Let_def)

lemma parentNode_appendChild_other:
  "x \<noteq> c \<Longrightarrow> parentNode (nodes (appendChild p (ElementNode c) s) x) = parentNode (nodes s x)"
  by (simp add: appendChild_def removeChild_def update_node_def Let_def split: option.splits)

lemma childNodes_appendChild_other:
  "x \<noteq> p \<Longrightarrow> ElementNode c \<notin> set (childNodes (nodes s x)) \<Longrightarrow>
   childNodes (nodes (appendChild p (ElementNode c) s) x) = childNodes (nodes s x)"
  by (auto simp add: appendChild_def removeChild_def update_node_def Let_def
      split: option.splits)

lemma childNodes_appendChild_self:
  "c \<noteq> p \<Longrightarrow> ElementNode c \<notin> set (childNodes (nodes s p)) \<Longrightarrow>
   childNodes (nodes (appendChild p (ElementNode c) s) p) = childNodes (nodes s p) @ [ElementNode c]"
  by (auto simp add: appendChild_def removeChild_def update_node_def Let_def
      split: option.splits)

lemma listeners_appendChild [simp]:
  "listeners (nodes (appendChild p ch s) x) = listeners (nodes s x)"
  by (simp add: appendChild_def removeChild_def update_node_def Let_def
      split: dom_child.splits option.splits)

lemma properties_appendChild [simp]:
  "properties (nodes (appendChild p ch s) x) = properties (nodes s x)"
  by (simp add: appendChild_def removeChild_def update_node_def Let_def
      split: dom_child.splits option.splits)

lemma animations_appendChild [simp]: "animations (appendChild p ch s) = animations s"
  by (simp add: appendChild_def removeChild_def update_node_def Let_def
      split: dom_child.splits option.splits)

lemma append_children_nodes:
  assumes "distinct cs" and "el \<notin> set cs"
    and "\<forall>c \<in> set cs. ElementNode c \<notin> set (childNodes (nodes s el))"
  shows "fst (append_children (map Node cs) el s) = Inr ()
       \<and> childNodes (nodes (snd (append_children (map Node cs) el s)) el)
           = childNodes (nodes s el) @ map ElementNode cs"
  using assms
proof (induction cs arbitrary: s)
  case Nil
  then show ?case by simp
next
  case (Cons c cs)
  let ?s1 = "appendChild el (ElementNode c) s"
  have kids: "childNodes (nodes ?s1 el) = childNodes (nodes s el) @ [ElementNode c]"
    using Cons.prems by (intro childNodes_appendChild_self) auto
  have "\<forall>c' \<in> set cs. ElementNode c' \<notin> set (childNodes (nodes ?s1 el))"
    using Cons.prems by (auto simp add: kids)
  with Cons have "fst (append_children (map Node cs) el ?s1) = Inr ()
       \<and> childNodes (nodes (snd (append_children (map Node cs) el ?s1)) el)
           = childNodes (nodes ?s1 el) @ map ElementNode cs"
    by simp
  then show ?case by (simp add: kids)
qed

lemma createElement_Many_nodes:
  assumes "children p = Many (map Node cs)" and "distinct cs" and "nextNode s \<notin> set cs"
  shows "fst (createElement t p s) = Inr (nextNode s)
       \<and> childNodes (nodes (snd (createElement t p s)) (nextNode s)) = map ElementNode cs"
proof -
  let ?s6 = "snd (configure_element t p s)"
  have leaf: "childNodes (nodes ?s6 (nextNode s)) = []"
    using fresh_leaf_configure_element [of s t p] by (simp add: fresh_leaf_def)
  then have "fst (append_children (map Node cs) (nextNode s) ?s6) = Inr ()
       \<and> childNodes (nodes (snd (append_children (map Node cs) (nextNode s) ?s6)) (nextNode s))
           = childNodes (nodes ?s6 (nextNode s)) @ map ElementNode cs"
    using assms by (intro append_children_nodes) simp_all
  then show ?thesis
    using assms(1) by (simp add: createElement_def Let_def split_beta apply_children_def leaf)
qed

subsection \<open>The steps of a modal without title\<close>

lemma and_then_Inr:
  "and_then r f = (Inr b, s') \<Longrightarrow> \<exists>a s1. r = (Inr a, s1) \<and> f a s1 = (Inr b, s')"
  by (cases r; cases "fst r") (auto simp add: and_then_def)

lemma createElement_Inr:
  "createElement t p s = (Inr el, s1) \<Longrightarrow>
   el = nextNode s \<and> s1 = snd (createElement t p s) \<and> nextNode s1 = Suc (nextNode s)"
  using fst_createElement [of t p s el] nextNode_createElement [of t p s] by simp

lemma createElement_if_Inr:
  "createElement_if b t p s = (Inr fo, s1) \<Longrightarrow>
   (b \<longrightarrow> fo = Some (nextNode s) \<and> s1 = snd (createElement t p s)
            \<and> fst (createElement t p s) = Inr (nextNode s))
   \<and> (\<not> b \<longrightarrow> fo = None \<and> s1 = s)"
proof (cases b)
  case True
  assume "createElement_if b t p s = (Inr fo, s1)"
  with True have "and_then (createElement t p s) (\<lambda>n s'. (Inr (Some n), s')) = (Inr fo, s1)"
    by (simp add: createElement_if_def)
  then obtain a s2 where "createElement t p s = (Inr a, s2)" and "(Inr (Some a), s2) = (Inr fo, s1)"
    by (auto dest: and_then_Inr)
  with True show ?thesis
    using createElement_Inr [of t p s a s2] by auto
next
  case False
  assume "createElement_if b t p s = (Inr fo, s1)"
  with False show ?thesis by (simp add: createElement_if_def)
qed

lemma Modal_no_title_steps:
  assumes "isOpen p" and "\<not> truthy_child (title p)" and "Modal p s = (Inr (Some m), s')"
  obtains s1 s2 s3 sA sB sC fo where
    "s1 = snd (createElement ''button'' (closeButton_props p) s)"
    "s2 = snd (createElement ''h3'' (modalTitle_props p) s1)"
    "s3 = snd (createElement ''div'' (modalContent_props p) s2)"
    "createElement_if (truthy_children (footer p)) ''div'' (modalFooter_props p) s3 = (Inr fo, sA)"
    "createElement ''div'' (modalElement_props p (modal_parts None (nextNode s + 2) fo)) sA = (Inr m, sB)"
    "sC = snd (createElement ''div'' (overlay_props p m) sB)"
    "s' = mount_modal (nextNode s) m (Suc m) sC"
proof -
  from assms have a0: "and_then (createElement ''button'' (closeButton_props p) s)
        (\<lambda>closeButton s.
        and_then (createElement ''h3'' (modalTitle_props p) s)
        (\<lambda>modalTitle s.
        and_then (createElement_if False ''div'' (modalHeader_props modalTitle closeButton) s)
        (\<lambda>modalHeader s.
        and_then (createElement ''div'' (modalContent_props p) s)
        (\<lambda>modalContent s.
        and_then (createElement_if (truthy_children (footer p)) ''div'' (modalFooter_props p) s)
        (\<lambda>modalFooter s.
        and_then (createElement ''div''
                    (modalElement_props p (modal_parts modalHeader modalContent modalFooter)) s)
        (\<lambda>modalElement s.
        and_then (createElement ''div'' (overlay_props p modalElement) s)
        (\<lambda>overlay s.
          (Inr (Some modalElement), mount_modal closeButton modalElement overlay s)))))))) 
      = (Inr (Some m), s')"
    by (simp add: Modal_def createComponent_def Modal_render_def)
  from and_then_Inr [OF a0] obtain cb s1 where
    c1: "createElement ''button'' (closeButton_props p) s = (Inr cb, s1)" and
    a1: "and_then (createElement ''h3'' (modalTitle_props p) s1)
        (\<lambda>modalTitle s.
        and_then (createElement_if False ''div'' (modalHeader_props modalTitle cb) s)
        (\<lambda>modalHeader s.
        and_then (createElement ''div'' (modalContent_props p) s)
        (\<lambda>modalContent s.
        and_then (createElement_if (truthy_children (footer p)) ''div'' (modalFooter_props p) s)
        (\<lambda>modalFooter s.
        and_then (createElement ''div''
                    (modalElement_props p (modal_parts modalHeader modalContent modalFooter)) s)
        (\<lambda>modalElement s.
        and_then (createElement ''div'' (overlay_props p modalElement) s)
        (\<lambda>overlay s.
          (Inr (Some modalElement), mount_modal cb modalElement overlay s))))))) 
      = (Inr (Some m), s')"
    by blast
  from and_then_Inr [OF a1] obtain tl s2 where
    c2: "createElement ''h3'' (modalTitle_props p) s1 = (Inr tl, s2)" and
    a2: "and_then (createElement_if False ''div'' (modalHeader_props tl cb) s2)
        (\<lambda>modalHeader s.
        and_then (createElement ''div'' (modalContent_props p) s)
        (\<lambda>modalContent s.
        and_then (createElement_if (truthy_children (footer p)) ''div'' (modalFooter_props p) s)
        (\<lambda>modalFooter s.
        and_then (createElement ''div''
                    (modalElement_props p (modal_parts modalHeader modalContent modalFooter)) s)
        (\<lambda>modalElement s.
        and_then (createElement ''div'' (overlay_props p modalElement) s)
        (\<lambda>overlay s.
          (Inr (Some modalElement), mount_modal cb modalElement overlay s)))))) 
      = (Inr (Some m), s')"
    by blast
  from a2 have a3: "and_then (createElement ''div'' (modalContent_props p) s2)
        (\<lambda>modalContent s.
        and_then (createElement_if (truthy_children (footer p)) ''div'' (modalFooter_props p) s)
        (\<lambda>modalFooter s.
        and_then (createElement ''div''
                    (modalElement_props p (modal_parts None modalContent modalFooter)) s)
        (\<lambda>modalElement s.
        and_then (createElement ''div'' (overlay_props p modalElement) s)
        (\<lambda>overlay s.
          (Inr (Some modalElement), mount_modal cb modalElement overlay s))))) 
      = (Inr (Some m), s')"
    by (simp add: createElement_if_def and_then_def)
  from and_then_Inr [OF a3] obtain c s3 where
    c3: "createElement ''div'' (modalContent_props p) s2 = (Inr c, s3)" and
    a4: "and_then (createElement_if (truthy_children (footer p)) ''div'' (modalFooter_props p) s3)
        (\<lambda>modalFooter s.
        and_then (createElement ''div''
                    (modalElement_props p (modal_parts None c modalFooter)) s)
        (\<lambda>modalElement s.
        and_then (createElement ''div'' (overlay_props p modalElement) s)
        (\<lambda>overlay s.
          (Inr (Some modalElement), mount_modal cb modalElement overlay s)))) 
      = (Inr (Some m), s')"
    by blast
  from and_then_Inr [OF a4] obtain fo sA where
    c4: "createElement_if (truthy_children (footer p)) ''div'' (modalFooter_props p) s3 = (Inr fo, sA)" and
    a5: "and_then (createElement ''div'' (modalElement_props p (modal_parts None c fo)) sA)
        (\<lambda>modalElement s.
        and_then (createElement ''div'' (overlay_props p modalElement) s)
        (\<lambda>overlay s.
          (Inr (Some modalElement), mount_modal cb modalElement overlay s))) 
      = (Inr (Some m), s')"
    by blast
  from and_then_Inr [OF a5] obtain me sB where
    c5: "createElement ''div'' (modalElement_props p (modal_parts None c fo)) sA = (Inr me, sB)" and
    a6: "and_then (createElement ''div'' (overlay_props p me) sB)
        (\<lambda>overlay s. (Inr (Some me), mount_modal cb me overlay s)) 
      = (Inr (Some m), s')"
    by blast
  from and_then_Inr [OF a6] obtain ov sC where
    c6: "createElement ''div'' (overlay_props p me) sB = (Inr ov, sC)" and
    a7: "(Inr (Some me), mount_modal cb me ov sC) = (Inr (Some m), s')"
    by blast
  from a7 have me: "me = m" and s': "s' = mount_modal cb m ov sC" by auto
  note e1 = createElement_Inr [OF c1]
  note e2 = createElement_Inr [OF c2]
  note e3 = createElement_Inr [OF c3]
  note e5 = createElement_Inr [OF c5]
  note e6 = createElement_Inr [OF c6]
  have "c = nextNode s + 2" using e1 e2 e3 by simp
  moreover have "ov = Suc m" using e5 e6 me by simp
  ultimately show ?thesis
    using that [of s1 s2 s3 fo sA sB sC] e1 e2 e3 c4 c5 e6 me s' by simp
qed

subsection \<open>From a well-formed state to a mounted modal\<close>

lemma below_not_mentions: "closure_below k f \<Longrightarrow> k \<le> ov \<Longrightarrow> \<not> mentions ov f"
  by (cases f) auto

lemma apart_new_element:
  assumes "well_formed s" and "nextNode s \<le> ov"
  shows "apart (nextNode s) ov (snd (document_createElement t s))"
proof -
  have l: "\<forall>n l. l \<in> set (listeners (nodes s n)) \<longrightarrow> \<not> mentions ov (snd l)"
    using assms unfolding well_formed_def by (blast dest: below_not_mentions)
  have pr: "\<forall>n kv f. kv \<in> set (properties (nodes s n)) \<longrightarrow> snd kv = PFunc f \<longrightarrow> \<not> mentions ov f"
    using assms unfolding well_formed_def by (blast dest: below_not_mentions)
  have an: "\<forall>a f. a \<in> set (animations s) \<longrightarrow> onfinish a = Some f \<longrightarrow> \<not> mentions ov f"
    using assms unfolding well_formed_def by (blast dest: below_not_mentions)
  have pa: "\<forall>n. parentNode (nodes s n) \<noteq> Some (nextNode s)"
    using assms unfolding well_formed_def by (metis less_irrefl)
  have ch: "\<forall>n. ElementNode (nextNode s) \<notin> set (childNodes (nodes s n))"
    using assms unfolding well_formed_def by (metis less_irrefl)
  show ?thesis
    using l pr an pa ch
    unfolding apart_def document_createElement_def empty_element_def
    by auto
qed

lemma apart_closeButton:
  assumes "well_formed s" and "nextNode s \<le> ov"
  shows "apart (nextNode s) ov (snd (createElement ''button'' (closeButton_props p) s))"
proof -
  let ?q = "no_props\<lparr>cssStyles := Some closeButtonStyles,
              rest := [(''onClick'', case onClose p of None \<Rightarrow> PVal Undefined | Some f \<Rightarrow> PFunc (UserFn f)),
                       (''ariaLabel'', PVal (Str ''Close''))]\<rparr>"
  have "apart (nextNode s) ov (snd (configure_element ''button'' ?q s))"
    using apart_new_element [OF assms]
    by (intro apart_configure_from) (auto split: option.splits)
  then have "apart (nextNode s) ov
      (set_textContent (nextNode s) close_text (snd (configure_element ''button'' ?q s)))"
    by (rule apart_set_textContent)
  moreover have "createElement ''button'' (closeButton_props p) s
      = (Inr (nextNode s),
         set_textContent (nextNode s) close_text (snd (configure_element ''button'' ?q s)))"
    unfolding closeButton_props_def
    by (rule createElement_text) (simp add: close_text_def)
  ultimately show ?thesis by simp
qed

lemma child_below_not_Node: "child_below k c \<Longrightarrow> k \<le> cb \<Longrightarrow> c \<noteq> Node cb"
  by (cases c) auto

lemma children_below_not_Node:
  "children_below k ch \<Longrightarrow> k \<le> cb \<Longrightarrow> Node cb \<notin> set (children_list ch)"
  by (cases ch) (auto simp add: list_all_iff dest: child_below_not_Node)


subsection \<open>Fields of elements under the steps of mounting\<close>

lemma nodes_animate [simp]: "nodes (snd (animate e k opts s)) = nodes s"
  by (simp add: animate_def split: option.splits)

lemma set_property_fields [simp]:
  "childNodes (nodes (set_property n key v s) x) = childNodes (nodes s x)"
  "parentNode (nodes (set_property n key v s) x) = parentNode (nodes s x)"
  "listeners (nodes (set_property n key v s) x) = listeners (nodes s x)"
  "animations (set_property n key v s) = animations s"
  "map_of (properties (nodes (set_property n key v s) n)) key = Some v"
  by (simp_all add: set_property_def update_node_def update_conv')

lemma addEventListener_fields [simp]:
  "childNodes (nodes (addEventListener n name f s) x) = childNodes (nodes s x)"
  "parentNode (nodes (addEventListener n name f s) x) = parentNode (nodes s x)"
  "properties (nodes (addEventListener n name f s) x) = properties (nodes s x)"
  "animations (addEventListener n name f s) = animations s"
  "(name, f) \<in> set (listeners (nodes (addEventListener n name f s) n))"
  "x \<noteq> n \<Longrightarrow> listeners (nodes (addEventListener n name f s) x) = listeners (nodes s x)"
  by (simp_all add: addEventListener_def update_node_def)

lemma configure_overlay:
  "x \<noteq> nextNode s \<Longrightarrow> nodes (snd (configure_element ''div'' (overlay_props p m) s)) x = nodes s x"
  "listeners (nodes (snd (configure_element ''div'' (overlay_props p m) s)) (nextNode s))
     = [(''click'', HandleOverlayClick (onClose p))]"
  by (simp_all add: configure_element_def overlay_props_def no_props_def Let_def split_beta
      document_createElement_def apply_cssStyles_def apply_className_def apply_style_def
      apply_dataset_def apply_rest_def addEventListener_def update_node_def empty_element_def
      classList_add_def to_lower_def upper_case_def lower_case_def)

lemma createElement_overlay:
  "createElement ''div'' (overlay_props p m) s
     = (Inr (nextNode s),
        appendChild (nextNode s) (ElementNode m) (snd (configure_element ''div'' (overlay_props p m) s)))"
  by (simp add: createElement_def Let_def split_beta apply_children_def overlay_props_def)

lemma overlay_created:
  assumes "m \<noteq> nextNode s" and "ElementNode m \<notin> set (childNodes (nodes s m))"
  shows "childNodes (nodes (snd (createElement ''div'' (overlay_props p m) s)) m) = childNodes (nodes s m)"
    and "parentNode (nodes (snd (createElement ''div'' (overlay_props p m) s)) m) = Some (nextNode s)"
    and "listeners (nodes (snd (createElement ''div'' (overlay_props p m) s)) (nextNode s))
           = [(''click'', HandleOverlayClick (onClose p))]"
  using assms
  by (simp_all add: createElement_overlay childNodes_appendChild_other
      parentNode_appendChild_child configure_overlay)

lemma mount_modal_fields:
  assumes "m \<noteq> document_body" and "ElementNode ov \<notin> set (childNodes (nodes s m))"
    and "m \<noteq> ov" and "cb \<noteq> ov"
  shows "childNodes (nodes (mount_modal cb m ov s) m) = childNodes (nodes s m)"
    and "parentNode (nodes (mount_modal cb m ov s) m) = parentNode (nodes s m)"
    and "parentNode (nodes (mount_modal cb m ov s) ov) = Some document_body"
    and "listeners (nodes (mount_modal cb m ov s) ov) = listeners (nodes s ov)"
    and "(''click'', Cleanup ov m) \<in> set (listeners (nodes (mount_modal cb m ov s) cb))"
    and "map_of (properties (nodes (mount_modal cb m ov s) m)) ''cleanup'' = Some (PFunc (Cleanup ov m))"
  using assms
  by (simp_all add: mount_modal_def Let_def childNodes_appendChild_other
      parentNode_appendChild_other parentNode_appendChild_child)

lemma nextNode_mount_modal [simp]: "nextNode (mount_modal cb m ov s) = nextNode s"
  by (simp add: mount_modal_def Let_def)

lemma open_modal_mount:
  assumes "apart cb ov s" and "cb \<noteq> document_body" and "cb \<noteq> ov"
  shows "open_modal cb m ov (mount_modal cb m ov s)"
proof -
  let ?s3 = "snd (animate (Some m) (Some scale_in) duration_200
      (snd (animate (Some ov) (Some fade_in) duration_200
        (appendChild document_body (ElementNode ov) s))))"
  have "apart cb ov ?s3"
    using assms by (intro apart_animate apart_appendChild) auto
  then show ?thesis
    unfolding mount_modal_def Let_def open_modal_def apart_def
    by (auto simp add: addEventListener_def set_property_def update_node_def
        dest!: set_AList_update)
qed

lemma value_below_not_mentions:
  "list_all (\<lambda>kv. value_below k (snd kv)) kvs \<Longrightarrow> k \<le> ov \<Longrightarrow>
   \<forall>kv \<in> set kvs. \<forall>f. snd kv = PFunc f \<longrightarrow> \<not> mentions ov f"
proof (induction kvs)
  case Nil
  then show ?case by simp
next
  case (Cons kv kvs)
  then show ?case by (cases "snd kv") (auto dest: below_not_mentions)
qed

lemma falsy_child_not_Node: "\<not> truthy_child c \<Longrightarrow> c \<noteq> Node n"
  by (cases c) auto

lemma modal_no_title_state:
  assumes wf: "well_formed s" and below: "props_below (nextNode s) p"
    and op: "isOpen p" and nt: "\<not> truthy_child (title p)"
    and ok: "Modal p s = (Inr (Some m), s')"
  shows "m = nextNode s + (if truthy_children (footer p) then 4 else 3)"
    and "open_modal (nextNode s) m (Suc m) s'"
    and "childNodes (nodes s' m) =
           ElementNode (nextNode s + 2) #
           (if truthy_children (footer p) then [ElementNode (nextNode s + 3)] else [])"
    and "parentNode (nodes s' m) = Some (Suc m)"
    and "parentNode (nodes s' (Suc m)) = Some document_body"
    and "listeners (nodes s' (Suc m)) = [(''click'', HandleOverlayClick (onClose p))]"
    and "(''click'', Cleanup (Suc m) m) \<in> set (listeners (nodes s' (nextNode s)))"
    and "map_of (properties (nodes s' m)) ''cleanup'' = Some (PFunc (Cleanup (Suc m) m))"
    and "nextNode s' = Suc (Suc m)"
proof -
  let ?k = "nextNode s"
  obtain s1 s2 s3 sA sB sC fo where
    s1: "s1 = snd (createElement ''button'' (closeButton_props p) s)" and
    s2: "s2 = snd (createElement ''h3'' (modalTitle_props p) s1)" and
    s3: "s3 = snd (createElement ''div'' (modalContent_props p) s2)" and
    fo: "createElement_if (truthy_children (footer p)) ''div'' (modalFooter_props p) s3 = (Inr fo, sA)" and
    me: "createElement ''div'' (modalElement_props p (modal_parts None (?k + 2) fo)) sA = (Inr m, sB)" and
    sC: "sC = snd (createElement ''div'' (overlay_props p m) sB)" and
    s': "s' = mount_modal ?k m (Suc m) sC"
    by (rule Modal_no_title_steps [OF op nt ok])
  have n1: "nextNode s1 = ?k + 1" and n2: "nextNode s2 = ?k + 2" and n3: "nextNode s3 = ?k + 3"
    by (simp_all add: s1 s2 s3)
  note f = createElement_if_Inr [OF fo]
  have nA: "nextNode sA = ?k + (if truthy_children (footer p) then 4 else 3)"
    using f n3 by auto
  have parts: "modal_parts None (?k + 2) fo =
      (?k + 2) # (if truthy_children (footer p) then [?k + 3] else [])"
    using f n3 by (auto simp add: modal_parts_def)
  note e = createElement_Inr [OF me]
  from e nA show m: "m = ?k + (if truthy_children (footer p) then 4 else 3)" by simp
  have nB: "nextNode sB = Suc m" using e by simp
  have k_ov: "?k \<le> Suc m" using m by simp
  have body: "document_body < ?k" using wf by (simp add: well_formed_def)
  \<comment> \<open>the dismiss button stays apart\<close>
  have a1: "apart ?k (Suc m) s1"
    unfolding s1 using wf k_ov by (rule apart_closeButton)
  have no_node: "Node ?k \<noteq> title p"
    using nt by (cases "title p") auto
  have a2: "apart ?k (Suc m) s2"
    unfolding s2 using a1 no_node
    by (intro apart_createElement) (auto simp add: n1 modalTitle_props_def no_props_def)
  have a3: "apart ?k (Suc m) s3"
    unfolding s3 using a2 below
    by (intro apart_createElement)
       (auto simp add: n2 modalContent_props_def no_props_def props_below_def
          dest: children_below_not_Node)
  have aA: "apart ?k (Suc m) sA"
  proof (cases "truthy_children (footer p)")
    case True
    with f have "sA = snd (createElement ''div'' (modalFooter_props p) s3)" by simp
    then show ?thesis
      using a3 below
      by (auto simp add: n3 modalFooter_props_def no_props_def props_below_def
          intro!: apart_createElement dest: children_below_not_Node)
  next
    case False
    with f a3 show ?thesis by simp
  qed
  have rest_ok: "\<forall>kv \<in> set (rest (modal_rest p)). \<forall>f. snd kv = PFunc f \<longrightarrow> \<not> mentions (Suc m) f"
    using below k_ov by (intro value_below_not_mentions) (simp_all add: props_below_def)
  have aB: "apart ?k (Suc m) sB"
  proof -
    have "apart ?k (Suc m) (snd (createElement ''div'' (modalElement_props p (modal_parts None (?k + 2) fo)) sA))"
      using aA rest_ok parts
      by (intro apart_createElement) (auto simp add: nA modalElement_props_def split: if_splits)
    with e show ?thesis by simp
  qed
  have aC: "apart ?k (Suc m) sC"
    unfolding sC using aB m
    by (intro apart_createElement) (auto simp add: nB overlay_props_def no_props_def)
  show "open_modal ?k m (Suc m) s'"
    unfolding s' using aC body m by (intro open_modal_mount) auto
  \<comment> \<open>the children of the modal element\<close>
  have kidsB: "childNodes (nodes sB m) = map ElementNode (modal_parts None (?k + 2) fo)"
  proof -
    have "childNodes (nodes (snd (createElement ''div''
        (modalElement_props p (modal_parts None (?k + 2) fo)) sA)) (nextNode sA))
        = map ElementNode (modal_parts None (?k + 2) fo)"
      using parts
      by (intro createElement_Many_nodes [THEN conjunct2])
         (auto simp add: modalElement_props_def nA split: if_splits)
    with e show ?thesis by simp
  qed
  have not_self: "ElementNode m \<notin> set (childNodes (nodes sB m))"
    and not_ov: "ElementNode (Suc m) \<notin> set (childNodes (nodes sB m))"
    using m parts kidsB by (auto split: if_splits)
  have m_ov: "m \<noteq> nextNode sB" by (simp add: nB)
  note oc = overlay_created [OF m_ov not_self, of p, folded sC, unfolded nB]
  have kidsC: "childNodes (nodes sC m) = childNodes (nodes sB m)" by (rule oc(1))
  have m_body: "m \<noteq> document_body" using body m by auto
  have not_ov': "ElementNode (Suc m) \<notin> set (childNodes (nodes sC m))"
    using not_ov kidsC by simp
  note mf = mount_modal_fields [OF m_body not_ov', of ?k, folded s']
  have ne: "m \<noteq> Suc m" "?k \<noteq> Suc m" using m by auto
  show "childNodes (nodes s' m) =
           ElementNode (?k + 2) # (if truthy_children (footer p) then [ElementNode (?k + 3)] else [])"
    using mf(1) [OF ne] parts kidsC kidsB by (simp split: if_splits)
  show "parentNode (nodes s' m) = Some (Suc m)"
    using mf(2) [OF ne] oc(2) by simp
  show "parentNode (nodes s' (Suc m)) = Some document_body"
    using mf(3) [OF ne] .
  show "listeners (nodes s' (Suc m)) = [(''click'', HandleOverlayClick (onClose p))]"
    using mf(4) [OF ne] oc(3) by simp
  show "(''click'', Cleanup (Suc m) m) \<in> set (listeners (nodes s' ?k))"
    using mf(5) [OF ne] .
  show "map_of (properties (nodes s' m)) ''cleanup'' = Some (PFunc (Cleanup (Suc m) m))"
    using mf(6) [OF ne] .
  show "nextNode s' = Suc (Suc m)"
    by (simp add: s' sC nB)
qed

subsection \<open>Events on a mounted modal\<close>

lemma open_modal_removeChild: "open_modal cb m ov s \<Longrightarrow> open_modal cb m ov (removeChild p c s)"
  by (auto simp add: open_modal_def removeChild_def update_node_def)

lemma open_modal_cleanup:
  "open_modal cb m ov s \<Longrightarrow> overlay \<noteq> ov \<Longrightarrow> open_modal cb m ov (cleanup overlay m' s)"
  by (auto simp add: open_modal_def cleanup_def animate_def Let_def nth_append
      dest!: set_update_subset_insert [THEN subsetD])

lemma open_modal_invoke:
  "open_modal cb m ov s \<Longrightarrow> \<not> mentions ov f \<Longrightarrow> open_modal cb m ov (invoke f a s)"
proof (cases f)
  case (UserFn x)
  then show "open_modal cb m ov s \<Longrightarrow> ?thesis" by (simp add: open_modal_def)
next
  case (HandleOverlayClick h)
  then show "open_modal cb m ov s \<Longrightarrow> ?thesis"
    by (auto simp add: open_modal_def split: arg.splits option.splits)
next
  case (Cleanup overlay m')
  then show "open_modal cb m ov s \<Longrightarrow> \<not> mentions ov f \<Longrightarrow> ?thesis"
    by (simp add: open_modal_cleanup)
next
  case (OverlayAnimFinish overlay)
  then show "open_modal cb m ov s \<Longrightarrow> ?thesis"
    by (simp add: open_modal_removeChild split: option.splits)
qed

lemma open_modal_fold_invoke:
  "open_modal cb m ov s \<Longrightarrow> \<forall>f \<in> set fs. \<not> mentions ov f \<Longrightarrow>
   open_modal cb m ov (fold (\<lambda>f. invoke f a) fs s)"
  by (induction fs arbitrary: s) (simp_all add: open_modal_invoke)

lemma open_modal_listeners_for:
  "open_modal cb m ov s \<Longrightarrow> n \<noteq> cb \<Longrightarrow> \<forall>f \<in> set (listeners_for name (nodes s n)). \<not> mentions ov f"
  by (auto simp add: open_modal_def listeners_for_def)

lemma open_modal_dispatch_fold:
  "open_modal cb m ov s \<Longrightarrow> cb \<notin> set path \<Longrightarrow>
   open_modal cb m ov
     (fold (\<lambda>cur s'. fold (\<lambda>f. invoke f (EventArg t cur)) (listeners_for name (nodes s' cur)) s')
        path s)"
proof (induction path arbitrary: s)
  case Nil
  then show ?case by simp
next
  case (Cons cur path)
  then have "open_modal cb m ov
      (fold (\<lambda>f. invoke f (EventArg t cur)) (listeners_for name (nodes s cur)) s)"
    by (intro open_modal_fold_invoke open_modal_listeners_for) auto
  with Cons show ?case by simp
qed

lemma ancestors_avoid:
  assumes "\<forall>n. parentNode (nodes s n) \<noteq> Some cb"
  shows "t \<noteq> cb \<Longrightarrow> cb \<notin> set (ancestors k s t)"
proof (induction k arbitrary: t)
  case 0
  then show ?case by simp
next
  case (Suc k)
  show ?case
  proof (cases "parentNode (nodes s t)")
    case None
    with Suc.prems show ?thesis by simp
  next
    case (Some q)
    with assms have "q \<noteq> cb" by metis
    then have "cb \<notin> set (ancestors k s q)" by (rule Suc.IH)
    with Some Suc.prems show ?thesis by simp
  qed
qed

lemma ancestors_root: "parentNode (nodes s n) = None \<Longrightarrow> ancestors k s n = [n]"
  by (cases k) simp_all

lemma open_modal_not_connected:
  "open_modal cb m ov s \<Longrightarrow> cb \<noteq> document_body \<Longrightarrow> \<not> connected s cb"
  by (simp add: open_modal_def connected_def event_path_def ancestors_root)

lemma open_modal_path:
  "open_modal cb m ov s \<Longrightarrow> cb \<noteq> document_body \<Longrightarrow> connected s t \<Longrightarrow>
   cb \<notin> set (event_path s t)"
proof -
  assume om: "open_modal cb m ov s" and "cb \<noteq> document_body" and "connected s t"
  then have "t \<noteq> cb"
    using open_modal_not_connected [of cb m ov s] by auto
  moreover from om have "\<forall>n. parentNode (nodes s n) \<noteq> Some cb"
    by (simp add: open_modal_def)
  ultimately show ?thesis
    unfolding event_path_def by (intro ancestors_avoid)
qed

lemma open_modal_not_closing: "open_modal cb m ov s \<Longrightarrow> \<not> closing s ov"
  by (auto simp add: open_modal_def closing_def list_ex_iff)

lemma open_modal_finished:
  "open_modal cb m ov s \<Longrightarrow>
   open_modal cb m ov (s\<lparr>animations := (animations s)[a := (animations s ! a)\<lparr>finished := True\<rparr>]\<rparr>)"
proof (cases "a < length (animations s)")
  case True
  then have "animations s ! a \<in> set (animations s)" by simp
  moreover assume "open_modal cb m ov s"
  ultimately show ?thesis
    by (auto simp add: open_modal_def dest!: set_update_subset_insert [THEN subsetD])
next
  case False
  then have "(animations s)[a := (animations s ! a)\<lparr>finished := True\<rparr>] = animations s"
    by (simp add: list_update_beyond)
  moreover assume "open_modal cb m ov s"
  ultimately show ?thesis by (simp add: open_modal_def)
qed

lemma open_modal_step:
  assumes "open_modal cb m ov s" and "cb \<noteq> document_body" and "possible s e" and "e \<noteq> CallCleanup m"
  shows "open_modal cb m ov (step e s)"
proof (cases e)
  case (Click t)
  with assms have "cb \<notin> set (event_path s t)"
    by (intro open_modal_path [of cb m ov]) simp_all
  with assms(1) Click show ?thesis
    by (simp add: dispatch_def open_modal_dispatch_fold)
next
  case (Finish a)
  show ?thesis
  proof (cases "a < length (animations s) \<and> \<not> finished (animations s ! a)")
    case True
    let ?s1 = "s\<lparr>animations := (animations s)[a := (animations s ! a)\<lparr>finished := True\<rparr>]\<rparr>"
    have s1: "open_modal cb m ov ?s1" using assms(1) by (rule open_modal_finished)
    show ?thesis
    proof (cases "onfinish (animations s ! a)")
      case None
      with True Finish s1 show ?thesis by (simp add: Let_def)
    next
      case (Some f)
      moreover from True have "animations s ! a \<in> set (animations s)" by simp
      ultimately have "\<not> mentions ov f"
        using assms(1) by (auto simp add: open_modal_def)
      with s1 have "open_modal cb m ov (invoke f NoArg ?s1)" by (rule open_modal_invoke)
      with True Finish Some show ?thesis by (simp add: Let_def)
    qed
  next
    case False
    with Finish assms(1) show ?thesis by auto
  qed
next
  case (CallCleanup x)
  with assms have x: "x \<noteq> m" by simp
  show ?thesis
  proof (cases "map_of (properties (nodes s x)) ''cleanup''")
    case None
    with CallCleanup assms(1) show ?thesis by simp
  next
    case (Some v)
    show ?thesis
    proof (cases v)
      case (PVal w)
      with Some CallCleanup assms(1) show ?thesis by simp
    next
      case (PFunc f)
      with Some have "(''cleanup'', PFunc f) \<in> set (properties (nodes s x))"
        by (auto dest: map_of_SomeD)
      with x assms(1) have "\<not> mentions ov f"
        by (auto simp add: open_modal_def)
      with assms(1) have "open_modal cb m ov (invoke f NoArg s)" by (rule open_modal_invoke)
      with Some PFunc CallCleanup show ?thesis by simp
    qed
  qed
qed

lemma closing_cleanup:
  "parentNode (nodes s ov) = Some q \<Longrightarrow> closing (cleanup ov m s) ov"
  by (simp add: closing_def cleanup_def animate_def Let_def list_ex_iff nth_append)

lemma ancestors_head: "n \<in> set (ancestors k s n)"
  by (cases k) (simp_all split: option.splits)

lemma connected_child_of_body:
  "parentNode (nodes s n) = Some document_body \<Longrightarrow> 0 < nextNode s \<Longrightarrow> connected s n"
  by (cases "nextNode s") (simp_all add: connected_def event_path_def ancestors_head)

subsection \<open>Sequences of events on a mounted modal\<close>

lemma nodes_cleanup [simp]: "nodes (cleanup ov m s) = nodes s"
  by (simp add: cleanup_def animate_def Let_def)

lemma calls_cleanup [simp]: "calls (cleanup ov m s) = calls s"
  by (simp add: cleanup_def animate_def Let_def)

lemma calls_removeChild [simp]: "calls (removeChild p c s) = calls s"
  by (simp add: removeChild_def update_node_def)

lemma properties_removeChild [simp]:
  "properties (nodes (removeChild p c s) x) = properties (nodes s x)"
  by (simp add: removeChild_def update_node_def)

lemma properties_invoke [simp]: "properties (nodes (invoke f a s) x) = properties (nodes s x)"
  by (cases f) (simp_all split: arg.splits option.splits)

lemma parentNode_invoke:
  "\<not> mentions ov f \<Longrightarrow> parentNode (nodes (invoke f a s) ov) = parentNode (nodes s ov)"
  by (cases f) (simp_all add: removeChild_def update_node_def split: arg.splits option.splits)

text \<open>Calling a function never takes an entry from the trace of the calls of the caller's functions.\<close>

lemma calls_invoke: "\<exists>zs. calls (invoke f a s) = calls s @ zs"
  by (cases f) (simp_all split: arg.splits option.splits)

lemma calls_fold_invoke: "\<exists>zs. calls (fold (\<lambda>f. invoke f a) fs s) = calls s @ zs"
proof (induction fs arbitrary: s)
  case Nil
  then show ?case by simp
next
  case (Cons f fs)
  obtain ys where "calls (invoke f a s) = calls s @ ys"
    using calls_invoke by blast
  moreover obtain zs where
    "calls (fold (\<lambda>f. invoke f a) fs (invoke f a s)) = calls (invoke f a s) @ zs"
    using Cons by blast
  ultimately show ?case by simp
qed

lemma calls_dispatch_fold:
  "\<exists>zs. calls (fold (\<lambda>cur s'. fold (\<lambda>f. invoke f (EventArg t cur))
            (listeners_for name (nodes s' cur)) s') path s) = calls s @ zs"
proof (induction path arbitrary: s)
  case Nil
  then show ?case by simp
next
  case (Cons cur path)
  let ?s1 = "fold (\<lambda>f. invoke f (EventArg t cur)) (listeners_for name (nodes s cur)) s"
  obtain ys where "calls ?s1 = calls s @ ys"
    using calls_fold_invoke by blast
  moreover obtain zs where
    "calls (fold (\<lambda>cur s'. fold (\<lambda>f. invoke f (EventArg t cur))
        (listeners_for name (nodes s' cur)) s') path ?s1) = calls ?s1 @ zs"
    using Cons by blast
  ultimately show ?case by simp
qed

text \<open>
  A click on an attached overlay itself whose only listener is \<^verbatim>\<open>handleOverlayClick\<close> with
  an \<^verbatim>\<open>onClose\<close>: the first function of the caller that is called is \<^verbatim>\<open>onClose\<close>, with no
  argument.
\<close>

lemma click_overlay_calls:
  assumes "parentNode (nodes s ov) = Some q" and "0 < nextNode s"
    and "listeners (nodes s ov) = [(''click'', HandleOverlayClick (Some f))]"
  shows "take (Suc (length (calls s))) (calls (step (Click ov) s)) = calls s @ [(f, NoArg)]"
proof -
  obtain k where k: "nextNode s = Suc k"
    using assms(2) by (cases "nextNode s") auto
  let ?s1 = "s\<lparr>calls := calls s @ [(f, NoArg)]\<rparr>"
  have "step (Click ov) s =
      fold (\<lambda>cur s'. fold (\<lambda>f. invoke f (EventArg ov cur)) (listeners_for ''click'' (nodes s' cur)) s')
        (ancestors k s q) ?s1"
    using assms(1,3) by (simp add: dispatch_def event_path_def k listeners_for_def)
  moreover obtain zs where
    "calls (fold (\<lambda>cur s'. fold (\<lambda>f. invoke f (EventArg ov cur)) (listeners_for ''click'' (nodes s' cur)) s')
        (ancestors k s q) ?s1) = calls ?s1 @ zs"
    using calls_dispatch_fold by blast
  ultimately show ?thesis by simp
qed

lemma properties_fold_invoke [simp]:
  "properties (nodes (fold (\<lambda>f. invoke f a) fs s) x) = properties (nodes s x)"
  by (induction fs arbitrary: s) simp_all

lemma properties_dispatch_fold [simp]:
  "properties (nodes (fold (\<lambda>cur s'. fold (\<lambda>f. invoke f (EventArg t cur))
      (listeners_for name (nodes s' cur)) s') path s) x) = properties (nodes s x)"
  by (induction path arbitrary: s) simp_all

lemma properties_step [simp]: "properties (nodes (step e s) x) = properties (nodes s x)"
  by (cases e) (simp_all add: dispatch_def Let_def split: option.splits prop_value.splits)

lemma properties_steps [simp]: "properties (nodes (steps es s) x) = properties (nodes s x)"
  by (induction es arbitrary: s) simp_all

lemma parentNode_fold_invoke:
  "\<forall>f \<in> set fs. \<not> mentions ov f \<Longrightarrow>
   parentNode (nodes (fold (\<lambda>f. invoke f a) fs s) ov) = parentNode (nodes s ov)"
  by (induction fs arbitrary: s) (simp_all add: parentNode_invoke)

lemma attached_dispatch_fold:
  "open_modal cb m ov s \<Longrightarrow> cb \<notin> set path \<Longrightarrow>
   parentNode (nodes
     (fold (\<lambda>cur s'. fold (\<lambda>f. invoke f (EventArg t cur)) (listeners_for name (nodes s' cur)) s')
        path s) ov) = parentNode (nodes s ov)"
proof (induction path arbitrary: s)
  case Nil
  then show ?case by simp
next
  case (Cons cur path)
  let ?s1 = "fold (\<lambda>f. invoke f (EventArg t cur)) (listeners_for name (nodes s cur)) s"
  have free: "\<forall>f \<in> set (listeners_for name (nodes s cur)). \<not> mentions ov f"
    using Cons.prems by (intro open_modal_listeners_for) auto
  then have "open_modal cb m ov ?s1"
    using Cons.prems by (intro open_modal_fold_invoke) auto
  moreover have "parentNode (nodes ?s1 ov) = parentNode (nodes s ov)"
    using free by (rule parentNode_fold_invoke)
  ultimately show ?case using Cons by simp
qed

lemma attached_step:
  assumes "open_modal cb m ov s" and "cb \<noteq> document_body" and "possible s e" and "e \<noteq> CallCleanup m"
  shows "parentNode (nodes (step e s) ov) = parentNode (nodes s ov)"
proof (cases e)
  case (Click t)
  with assms have "cb \<notin> set (event_path s t)"
    by (intro open_modal_path [of cb m ov]) simp_all
  with assms(1) Click show ?thesis
    by (simp add: dispatch_def attached_dispatch_fold)
next
  case (Finish a)
  show ?thesis
  proof (cases "a < length (animations s) \<and> \<not> finished (animations s ! a)")
    case True
    let ?s1 = "s\<lparr>animations := (animations s)[a := (animations s ! a)\<lparr>finished := True\<rparr>]\<rparr>"
    show ?thesis
    proof (cases "onfinish (animations s ! a)")
      case None
      with True Finish show ?thesis by (simp add: Let_def)
    next
      case (Some f)
      moreover from True have "animations s ! a \<in> set (animations s)" by simp
      ultimately have "\<not> mentions ov f"
        using assms(1) by (auto simp add: open_modal_def)
      then have "parentNode (nodes (invoke f NoArg ?s1) ov) = parentNode (nodes ?s1 ov)"
        by (rule parentNode_invoke)
      with True Finish Some show ?thesis by (simp add: Let_def)
    qed
  next
    case False
    with Finish show ?thesis by auto
  qed
next
  case (CallCleanup x)
  with assms have x: "x \<noteq> m" by simp
  show ?thesis
  proof (cases "map_of (properties (nodes s x)) ''cleanup''")
    case None
    with CallCleanup show ?thesis by simp
  next
    case (Some v)
    show ?thesis
    proof (cases v)
      case (PVal w)
      with Some CallCleanup show ?thesis by simp
    next
      case (PFunc f)
      with Some have "(''cleanup'', PFunc f) \<in> set (properties (nodes s x))"
        by (auto dest: map_of_SomeD)
      with x assms(1) have "\<not> mentions ov f"
        by (auto simp add: open_modal_def)
      then have "parentNode (nodes (invoke f NoArg s) ov) = parentNode (nodes s ov)"
        by (rule parentNode_invoke)
      with Some PFunc CallCleanup show ?thesis by simp
    qed
  qed
qed

lemma open_modal_steps:
  assumes "open_modal cb m ov s" and "cb \<noteq> document_body"
    and "all_possible es s" and "CallCleanup m \<notin> set es"
  shows "open_modal cb m ov (steps es s)
       \<and> parentNode (nodes (steps es s) ov) = parentNode (nodes s ov)"
  using assms(1,3,4)
proof (induction es arbitrary: s)
  case Nil
  then show ?case by simp
next
  case (Cons e es)
  then have p: "possible s e" and ne: "e \<noteq> CallCleanup m" by auto
  have "open_modal cb m ov (step e s)"
    using Cons.prems(1) assms(2) p ne by (rule open_modal_step)
  moreover have "parentNode (nodes (step e s) ov) = parentNode (nodes s ov)"
    using Cons.prems(1) assms(2) p ne by (rule attached_step)
  ultimately show ?case
    using Cons.IH [of "step e s"] Cons.prems by simp
qed

text \<open>
  What a sequence of events without a call of the \<^verbatim>\<open>cleanup\<close> property of \<open>m\<close> leaves of a
  mounted modal: the dismiss button is still outside the document, the modal is not
  closing, and a call of \<^verbatim>\<open>cleanup\<close> makes it closing.
\<close>

lemma mounted_after_steps:
  assumes "open_modal cb m ov s" and "cb \<noteq> document_body"
    and "parentNode (nodes s ov) = Some q"
    and "map_of (properties (nodes s m)) ''cleanup'' = Some (PFunc (Cleanup ov m))"
    and "all_possible es s" and "CallCleanup m \<notin> set es"
  shows "\<not> connected (steps es s) cb"
    and "\<not> closing (steps es s) ov"
    and "closing (step (CallCleanup m) (steps es s)) ov"
proof -
  note k = open_modal_steps [OF assms(1,2,5,6)]
  from k have om: "open_modal cb m ov (steps es s)" by simp
  from om assms(2) show "\<not> connected (steps es s) cb" by (rule open_modal_not_connected)
  from om show "\<not> closing (steps es s) ov" by (rule open_modal_not_closing)
  from k assms(3) have "parentNode (nodes (steps es s) ov) = Some q" by simp
  then have "closing (cleanup ov m (steps es s)) ov" by (rule closing_cleanup)
  then show "closing (step (CallCleanup m) (steps es s)) ov"
    using assms(4) by simp
qed

text \<open>
  Claim C10, amended. Let \<^verbatim>\<open>Modal\<close> be called with \<^verbatim>\<open>isOpen\<close> and without a title, in a
  well-formed state and with properties that refer to existing elements, and let it return
  the modal element \<open>m\<close>. Then the children of \<open>m\<close> are the content and, if there is
  one, the footer: no header. The dismiss button, the first element created, which carries
  \<^verbatim>\<open>cleanup\<close> as a click listener, has no parent, is the child of no element and is not in
  the document. The overlay, the element after \<open>m\<close>, is a child of the body and the parent
  of \<open>m\<close>; its only listener is \<^verbatim>\<open>handleOverlayClick\<close>. A click on the overlay itself calls
  \<^verbatim>\<open>onClose\<close>, when there is one, before any other function of the caller, and does not
  make the modal closing; a click on another element, when it reaches the overlay on its
  way up, does nothing there. The modal is not closing after \<^verbatim>\<open>Modal\<close>, and a call of the
  \<^verbatim>\<open>cleanup\<close> property of \<open>m\<close> makes it closing. After every sequence of events that can
  reach the document (clicks on elements of the document, completions of animations,
  calls of \<^verbatim>\<open>cleanup\<close> properties) without a call of the \<^verbatim>\<open>cleanup\<close> property of \<open>m\<close>, the
  dismiss button is still not in the document, the modal is still not closing, and a call
  of the \<^verbatim>\<open>cleanup\<close> property of \<open>m\<close> makes it closing: a click on the overlay leads to the
  closing state only through a call of \<^verbatim>\<open>cleanup\<close> that \<^verbatim>\<open>onClose\<close> makes.
\<close>

theorem modal_without_title:
  assumes "well_formed s" and "props_below (nextNode s) p"
    and "isOpen p" and "\<not> truthy_child (title p)"
    and "Modal p s = (Inr (Some m), s')"
  shows "childNodes (nodes s' m) =
           ElementNode (nextNode s + 2) #
           (if truthy_children (footer p) then [ElementNode (nextNode s + 3)] else [])
       \<and> (''click'', Cleanup (Suc m) m) \<in> set (listeners (nodes s' (nextNode s)))
       \<and> parentNode (nodes s' (nextNode s)) = None
       \<and> (\<forall>n. ElementNode (nextNode s) \<notin> set (childNodes (nodes s' n)))
       \<and> \<not> connected s' (nextNode s)
       \<and> parentNode (nodes s' m) = Some (Suc m)
       \<and> parentNode (nodes s' (Suc m)) = Some document_body
       \<and> connected s' (Suc m)
       \<and> listeners (nodes s' (Suc m)) = [(''click'', HandleOverlayClick (onClose p))]
       \<and> (\<forall>f. onClose p = Some f \<longrightarrow>
            take (Suc (length (calls s'))) (calls (step (Click (Suc m)) s')) = calls s' @ [(f, NoArg)])
       \<and> \<not> closing (step (Click (Suc m)) s') (Suc m)
       \<and> (\<forall>x t. x \<noteq> Suc m \<longrightarrow>
            fold (\<lambda>f. invoke f (EventArg x (Suc m))) (listeners_for ''click'' (nodes s' (Suc m))) t = t)
       \<and> \<not> closing s' (Suc m)
       \<and> closing (step (CallCleanup m) s') (Suc m)
       \<and> (\<forall>es. all_possible es s' \<and> CallCleanup m \<notin> set es \<longrightarrow>
              \<not> connected (steps es s') (nextNode s)
            \<and> \<not> closing (steps es s') (Suc m)
            \<and> closing (step (CallCleanup m) (steps es s')) (Suc m))"
proof -
  note st = modal_no_title_state [OF assms]
  have body: "nextNode s \<noteq> document_body"
    using assms(1) by (auto simp add: well_formed_def)
  have om: "open_modal (nextNode s) m (Suc m) s'" by (rule st(2))
  note after = mounted_after_steps [OF om body st(5) st(8)]
  have c: "connected s' (Suc m)"
    using st(5) by (rule connected_child_of_body) (simp add: st(9))
  have "\<not> connected s' (nextNode s)"
    using after(1) [of "[]"] by simp
  moreover have "\<not> closing s' (Suc m)"
    using after(2) [of "[]"] by simp
  moreover have "closing (step (CallCleanup m) s') (Suc m)"
    using after(3) [of "[]"] by simp
  moreover have "\<not> closing (step (Click (Suc m)) s') (Suc m)"
    using after(2) [of "[Click (Suc m)]"] c by simp
  moreover have "take (Suc (length (calls s'))) (calls (step (Click (Suc m)) s')) = calls s' @ [(f, NoArg)]"
    if "onClose p = Some f" for f
    using st(5) by (rule click_overlay_calls) (simp_all add: st(9) st(6) that)
  moreover have "\<not> connected (steps es s') (nextNode s)
       \<and> \<not> closing (steps es s') (Suc m)
       \<and> closing (step (CallCleanup m) (steps es s')) (Suc m)"
    if "all_possible es s'" and "CallCleanup m \<notin> set es" for es
    using after [OF that] by simp
  moreover have "fold (\<lambda>f. invoke f (EventArg x (Suc m))) (listeners_for ''click'' (nodes s' (Suc m))) t = t"
    if "x \<noteq> Suc m" for x t
    using that by (simp add: listeners_for_def st(6) split: option.splits)
  moreover have "parentNode (nodes s' (nextNode s)) = None"
    and "\<forall>n. ElementNode (nextNode s) \<notin> set (childNodes (nodes s' n))"
    using om by (simp_all add: open_modal_def)
  ultimately show ?thesis
    using c st(3,4,5,6,7) by blast
qed

subsection \<open>A modal in the state after the load of the module\<close>

lemma well_formed_initial: "well_formed initial"
  by (simp add: well_formed_def initial_def document_body_def empty_element_def)

lemma plain_modal_below: "props_below (nextNode initial) plain_modal"
  by (simp add: props_below_def plain_modal_def)

lemmas modal_eval = Modal_def createComponent_def Modal_render_def and_then_def
  createElement_if_def closeButton_props_def modalTitle_props_def modalContent_props_def
  modalFooter_props_def modalElement_props_def overlay_props_def modal_parts_def
  plain_modal_def

lemma plain_modal_result: "fst (Modal plain_modal initial) = Inr (Some 4)"
  by (simp add: modal_eval createElement_def Let_def split_beta apply_children_def
      close_text_def)

lemma plain_modal_run:
  "Modal plain_modal initial = (Inr (Some 4), snd (Modal plain_modal initial))"
  using plain_modal_result by (simp add: prod_eq_iff)

lemma plain_modal_mounted:
  "parentNode (nodes (snd (Modal plain_modal initial)) 5) = Some document_body"
  "map_of (properties (nodes (snd (Modal plain_modal initial)) 4)) ''cleanup''
     = Some (PFunc (Cleanup 5 4))"
proof -
  have op: "isOpen plain_modal" and nt: "\<not> truthy_child (title plain_modal)"
    by (simp_all add: plain_modal_def)
  note st = modal_no_title_state
    [OF well_formed_initial plain_modal_below op nt plain_modal_run]
  from st(5) show "parentNode (nodes (snd (Modal plain_modal initial)) 5) = Some document_body"
    by simp
  from st(8) show "map_of (properties (nodes (snd (Modal plain_modal initial)) 4)) ''cleanup''
     = Some (PFunc (Cleanup 5 4))"
    by simp
qed

lemma plain_modal_open:
  "open_modal 1 4 5 (snd (Modal plain_modal initial))"
  "listeners (nodes (snd (Modal plain_modal initial)) 5) = [(''click'', HandleOverlayClick (Some 0))]"
  "nextNode (snd (Modal plain_modal initial)) = 6"
  "connected (snd (Modal plain_modal initial)) 5"
proof -
  have op: "isOpen plain_modal" and nt: "\<not> truthy_child (title plain_modal)"
    and oc: "onClose plain_modal = Some 0"
    by (simp_all add: plain_modal_def)
  note st = modal_no_title_state
    [OF well_formed_initial plain_modal_below op nt plain_modal_run]
  from st(2) show "open_modal 1 4 5 (snd (Modal plain_modal initial))"
    by (simp add: initial_def)
  from st(6) oc show "listeners (nodes (snd (Modal plain_modal initial)) 5)
      = [(''click'', HandleOverlayClick (Some 0))]"
    by simp
  from st(9) show n: "nextNode (snd (Modal plain_modal initial)) = 6"
    by simp
  show "connected (snd (Modal plain_modal initial)) 5"
    using plain_modal_mounted(1) by (rule connected_child_of_body) (simp add: n)
qed

text \<open>
  \<^verbatim>\<open>Modal({isOpen: true, content: 'Hello', onClose: f})\<close> after the load of the module: the
  dismiss button is element 1, the modal element 4, the overlay 5. The click on another
  element is one on the modal element; the sequence of events is a click on the overlay
  and the completion of its enter animation.
\<close>

theorem modal_without_title_witness:
  "well_formed initial \<and> props_below (nextNode initial) plain_modal
   \<and> isOpen plain_modal \<and> \<not> truthy_child (title plain_modal)
   \<and> Modal plain_modal initial = (Inr (Some 4), snd (Modal plain_modal initial))
   \<and> childNodes (nodes (snd (Modal plain_modal initial)) 4) = [ElementNode 3]
   \<and> parentNode (nodes (snd (Modal plain_modal initial)) 1) = None
   \<and> parentNode (nodes (snd (Modal plain_modal initial)) 5) = Some document_body
   \<and> listeners (nodes (snd (Modal plain_modal initial)) 5) = [(''click'', HandleOverlayClick (Some 0))]
   \<and> onClose plain_modal = Some 0
   \<and> take (Suc (length (calls (snd (Modal plain_modal initial)))))
        (calls (step (Click 5) (snd (Modal plain_modal initial))))
       = calls (snd (Modal plain_modal initial)) @ [(0, NoArg)]
   \<and> \<not> closing (step (Click 5) (snd (Modal plain_modal initial))) 5
   \<and> fold (\<lambda>f. invoke f (EventArg 4 5))
        (listeners_for ''click'' (nodes (snd (Modal plain_modal initial)) 5))
        (snd (Modal plain_modal initial)) = snd (Modal plain_modal initial)
   \<and> \<not> closing (snd (Modal plain_modal initial)) 5
   \<and> closing (step (CallCleanup 4) (snd (Modal plain_modal initial))) 5
   \<and> all_possible [Click 5, Finish 0] (snd (Modal plain_modal initial))
   \<and> CallCleanup 4 \<notin> set [Click 5, Finish 0]
   \<and> \<not> connected (steps [Click 5, Finish 0] (snd (Modal plain_modal initial))) 1
   \<and> \<not> closing (steps [Click 5, Finish 0] (snd (Modal plain_modal initial))) 5
   \<and> closing (step (CallCleanup 4) (steps [Click 5, Finish 0] (snd (Modal plain_modal initial)))) 5"
proof -
  let ?s = "snd (Modal plain_modal initial)"
  have op: "isOpen plain_modal" and nt: "\<not> truthy_child (title plain_modal)"
    and ft: "\<not> truthy_children (footer plain_modal)" and oc: "onClose plain_modal = Some 0"
    by (simp_all add: plain_modal_def)
  have k: "nextNode initial = 1" by (simp add: initial_def)
  have five: "Suc 4 = (5::nat)" by simp
  note t = modal_without_title
    [OF well_formed_initial plain_modal_below op nt plain_modal_run, unfolded k five]
  have es: "all_possible [Click 5, Finish 0] ?s" "CallCleanup 4 \<notin> set [Click 5, Finish 0]"
    using plain_modal_open(4) by simp_all
  from t have "\<forall>es. all_possible es ?s \<and> CallCleanup 4 \<notin> set es \<longrightarrow>
              \<not> connected (steps es ?s) 1
            \<and> \<not> closing (steps es ?s) 5
            \<and> closing (step (CallCleanup 4) (steps es ?s)) 5"
    by blast
  then have "all_possible [Click 5, Finish 0] ?s \<and> CallCleanup 4 \<notin> set [Click 5, Finish 0] \<longrightarrow>
              \<not> connected (steps [Click 5, Finish 0] ?s) 1
            \<and> \<not> closing (steps [Click 5, Finish 0] ?s) 5
            \<and> closing (step (CallCleanup 4) (steps [Click 5, Finish 0] ?s)) 5"
    by (rule spec)
  with es have a: "\<not> connected (steps [Click 5, Finish 0] ?s) 1
      \<and> \<not> closing (steps [Click 5, Finish 0] ?s) 5
      \<and> closing (step (CallCleanup 4) (steps [Click 5, Finish 0] ?s)) 5"
    by blast
  from t have "\<forall>f. onClose plain_modal = Some f \<longrightarrow>
      take (Suc (length (calls ?s))) (calls (step (Click 5) ?s)) = calls ?s @ [(f, NoArg)]"
    by blast
  with oc have b: "take (Suc (length (calls ?s))) (calls (step (Click 5) ?s))
      = calls ?s @ [(0, NoArg)]"
    by blast
  from t have c: "childNodes (nodes ?s 4) =
      ElementNode (1 + 2) # (if truthy_children (footer plain_modal) then [ElementNode (1 + 3)] else [])"
    and d: "parentNode (nodes ?s 1) = None"
    and e: "parentNode (nodes ?s 5) = Some document_body"
    and f: "listeners (nodes ?s 5) = [(''click'', HandleOverlayClick (onClose plain_modal))]"
    and g: "\<not> closing (step (Click 5) ?s) 5" "\<not> closing ?s 5"
      "closing (step (CallCleanup 4) ?s) 5"
    by blast+
  from t have "\<forall>x t. x \<noteq> 5 \<longrightarrow>
      fold (\<lambda>f. invoke f (EventArg x 5)) (listeners_for ''click'' (nodes ?s 5)) t = t"
    by blast
  then have h: "fold (\<lambda>f. invoke f (EventArg 4 5)) (listeners_for ''click'' (nodes ?s 5)) ?s = ?s"
    by simp
  from c ft have c': "childNodes (nodes ?s 4) = [ElementNode 3]" by simp
  from f oc have f': "listeners (nodes ?s 5) = [(''click'', HandleOverlayClick (Some 0))]" by simp
  show ?thesis
    using well_formed_initial plain_modal_below op nt plain_modal_run oc a b c' d e f' g h es
    by blast
qed

text \<open>
  Claim C10 as it is stated fails: on the modal of above, which has an \<^verbatim>\<open>onClose\<close>, a click
  on the overlay itself calls \<^verbatim>\<open>onClose\<close> and leaves the modal not closing.
\<close>

theorem overlay_click_does_not_close_counterexample:
  "fst (Modal plain_modal initial) = Inr (Some 4)
   \<and> onClose plain_modal = Some 0
   \<and> title plain_modal = Prim Undefined
   \<and> parentNode (nodes (snd (Modal plain_modal initial)) 5) = Some document_body
   \<and> listeners (nodes (snd (Modal plain_modal initial)) 5) = [(''click'', HandleOverlayClick (Some 0))]
   \<and> connected (snd (Modal plain_modal initial)) 5
   \<and> take (Suc (length (calls (snd (Modal plain_modal initial)))))
        (calls (step (Click 5) (snd (Modal plain_modal initial))))
       = calls (snd (Modal plain_modal initial)) @ [(0, NoArg)]
   \<and> \<not> closing (step (Click 5) (snd (Modal plain_modal initial))) 5"
proof -
  let ?s = "snd (Modal plain_modal initial)"
  have "take (Suc (length (calls ?s))) (calls (step (Click 5) ?s)) = calls ?s @ [(0, NoArg)]"
    using plain_modal_mounted(1)
    by (rule click_overlay_calls) (simp_all add: plain_modal_open)
  moreover have "open_modal 1 4 5 (step (Click 5) ?s)"
    using plain_modal_open(1)
    by (rule open_modal_step) (simp_all add: plain_modal_open document_body_def)
  then have "\<not> closing (step (Click 5) ?s) 5"
    by (rule open_modal_not_closing)
  ultimately show ?thesis
    using plain_modal_result plain_modal_mounted(1) plain_modal_open(2,4)
    by (simp add: plain_modal_def)
qed

subsection \<open>Closing\<close>

lemma cleanup_attached:
  "parentNode (nodes s ov) = Some q \<Longrightarrow>
   cleanup ov m s =
     s\<lparr>animations := animations s @
        [\<lparr>target = ov, keyframes = [[(''opacity'', ''1'')], [(''opacity'', ''0'')]],
          duration = 200, easing = ''ease-in-out'', fill = ''forwards'',
          onfinish = Some (OverlayAnimFinish ov), finished = False\<rparr>,
         \<lparr>target = m,
          keyframes = [[(''transform'', ''scale(1)''), (''opacity'', ''1'')],
                       [(''transform'', ''scale(0.9)''), (''opacity'', ''0'')]],
          duration = 200, easing = ''ease-in-out'', fill = ''forwards'',
          onfinish = None, finished = False\<rparr>]\<rparr>"
  by (simp add: cleanup_def animate_def duration_200_def Let_def list_update_append)

lemma cleanup_detached: "parentNode (nodes s ov) = None \<Longrightarrow> cleanup ov m s = s"
  by (simp add: cleanup_def)

lemma finish_exit:
  assumes "a < length (animations s)" and "\<not> finished (animations s ! a)"
    and "onfinish (animations s ! a) = Some (OverlayAnimFinish ov)"
  shows "step (Finish a) s =
     (let s1 = s\<lparr>animations := (animations s)[a := (animations s ! a)\<lparr>finished := True\<rparr>]\<rparr>
      in case parentNode (nodes s ov) of Some q \<Rightarrow> removeChild q ov s1 | None \<Rightarrow> s1)"
  using assms by (simp add: Let_def)

text \<open>
  Claim C7, amended. Let the overlay be attached. A close request makes the modal
  closing and leaves the document as it is. A second close request while closing is not
  without effect: it starts the two exit animations once more, the new overlay animation
  with its own completion handler; the document is still as it was, the overlay still
  attached. When the completion of the first exit animation of the overlay is notified,
  the overlay is removed from its parent. After that, the completion of the second exit
  animation changes nothing in the document, a notification for an animation that has
  completed changes nothing at all, and a further close request is a no-op.
\<close>

theorem second_close_request_restarts_exit:
  assumes "parentNode (nodes s ov) = Some q"
  shows "closing (cleanup ov m s) ov
       \<and> nodes (cleanup ov m s) = nodes s
       \<and> nodes (cleanup ov m (cleanup ov m s)) = nodes s
       \<and> length (animations (cleanup ov m s)) = length (animations s) + 2
       \<and> length (animations (cleanup ov m (cleanup ov m s))) = length (animations s) + 4
       \<and> cleanup ov m (cleanup ov m s) \<noteq> cleanup ov m s
       \<and> onfinish (animations (cleanup ov m (cleanup ov m s)) ! (length (animations s) + 2))
           = Some (OverlayAnimFinish ov)
       \<and> parentNode (nodes (step (Finish (length (animations s))) (cleanup ov m (cleanup ov m s))) ov)
           = None
       \<and> childNodes (nodes (step (Finish (length (animations s))) (cleanup ov m (cleanup ov m s))) q)
           = removeAll (ElementNode ov) (childNodes (nodes s q))
       \<and> nodes (step (Finish (length (animations s) + 2))
                  (step (Finish (length (animations s))) (cleanup ov m (cleanup ov m s))))
           = nodes (step (Finish (length (animations s))) (cleanup ov m (cleanup ov m s)))
       \<and> step (Finish (length (animations s)))
            (step (Finish (length (animations s))) (cleanup ov m (cleanup ov m s)))
           = step (Finish (length (animations s))) (cleanup ov m (cleanup ov m s))
       \<and> cleanup ov m (step (Finish (length (animations s))) (cleanup ov m (cleanup ov m s)))
           = step (Finish (length (animations s))) (cleanup ov m (cleanup ov m s))"
proof -
  define n where "n = length (animations s)"
  define s1 where "s1 = cleanup ov m s"
  define s2 where "s2 = cleanup ov m s1"
  define s3 where "s3 = step (Finish n) s2"
  note c1 = cleanup_attached [OF assms, of m, folded s1_def]
  have p1: "parentNode (nodes s1 ov) = Some q" using assms by (simp add: c1)
  note c2 = cleanup_attached [OF p1, of m, folded s2_def]
  have a: "closing s1 ov"
    unfolding s1_def using assms by (rule closing_cleanup)
  have b: "nodes s1 = nodes s" "nodes s2 = nodes s"
    by (simp_all add: c2) (simp_all add: c1)
  have l1: "length (animations s1) = n + 2" by (simp add: c1 n_def)
  have l2: "length (animations s2) = n + 4" by (simp add: c2 l1)
  have d: "s2 \<noteq> s1"
  proof
    assume "s2 = s1"
    then have "length (animations s2) = length (animations s1)" by simp
    with l1 l2 show False by simp
  qed
  have at1: "animations s2 ! n =
      \<lparr>target = ov, keyframes = [[(''opacity'', ''1'')], [(''opacity'', ''0'')]],
       duration = 200, easing = ''ease-in-out'', fill = ''forwards'',
       onfinish = Some (OverlayAnimFinish ov), finished = False\<rparr>"
    by (simp add: c2 nth_append l1) (simp add: c1 nth_append n_def)
  have at2: "animations s2 ! (n + 2) =
      \<lparr>target = ov, keyframes = [[(''opacity'', ''1'')], [(''opacity'', ''0'')]],
       duration = 200, easing = ''ease-in-out'', fill = ''forwards'',
       onfinish = Some (OverlayAnimFinish ov), finished = False\<rparr>"
    by (simp add: c2 nth_append l1)
  have "step (Finish n) s2 =
      (let t = s2\<lparr>animations := (animations s2)[n := (animations s2 ! n)\<lparr>finished := True\<rparr>]\<rparr>
       in case parentNode (nodes s2 ov) of Some q \<Rightarrow> removeChild q ov t | None \<Rightarrow> t)"
    by (rule finish_exit) (simp_all add: l2 at1)
  then have s3: "s3 = removeChild q ov
      (s2\<lparr>animations := (animations s2)[n := (animations s2 ! n)\<lparr>finished := True\<rparr>]\<rparr>)"
    using assms by (simp add: s3_def b)
  have e: "parentNode (nodes s3 ov) = None"
    by (simp add: s3 removeChild_def update_node_def)
  have f: "childNodes (nodes s3 q)
      = removeAll (ElementNode ov) (childNodes (nodes s q))"
    by (simp add: s3 removeChild_def update_node_def b)
  have an3: "animations s3 = (animations s2)[n := (animations s2 ! n)\<lparr>finished := True\<rparr>]"
    by (simp add: s3 removeChild_def update_node_def)
  have "step (Finish (n + 2)) s3 =
      (let t = s3\<lparr>animations := (animations s3)[n + 2 := (animations s3 ! (n + 2))\<lparr>finished := True\<rparr>]\<rparr>
       in case parentNode (nodes s3 ov) of Some q \<Rightarrow> removeChild q ov t | None \<Rightarrow> t)"
    using at2 by (intro finish_exit) (simp_all add: an3 l2)
  then have g: "nodes (step (Finish (n + 2)) s3) = nodes s3"
    by (simp add: e)
  have "finished (animations s3 ! n)"
    by (simp add: an3 l2)
  then have h: "step (Finish n) s3 = s3"
    by simp
  have i: "cleanup ov m s3 = s3"
    using e by (rule cleanup_detached)
  have j: "onfinish (animations s2 ! (n + 2)) = Some (OverlayAnimFinish ov)"
    unfolding at2 by simp
  show ?thesis
    using a b l1 l2 d e f g h i j
    unfolding s3_def s2_def s1_def n_def by simp
qed

lemma plain_modal_close:
  "step (CallCleanup 4) (snd (Modal plain_modal initial))
     = cleanup 5 4 (snd (Modal plain_modal initial))"
  "step (CallCleanup 4) (cleanup 5 4 (snd (Modal plain_modal initial)))
     = cleanup 5 4 (cleanup 5 4 (snd (Modal plain_modal initial)))"
  by (simp_all add: plain_modal_mounted cleanup_attached [OF plain_modal_mounted(1)])

text \<open>
  Claim C7 as it is stated fails: on the modal of above, a second call of \<^verbatim>\<open>cleanup\<close> while
  the modal is closing adds two animations to the four there are.
\<close>

theorem second_close_request_counterexample:
  "closing (step (CallCleanup 4) (snd (Modal plain_modal initial))) 5
   \<and> length (animations (step (CallCleanup 4) (step (CallCleanup 4) (snd (Modal plain_modal initial)))))
       = length (animations (step (CallCleanup 4) (snd (Modal plain_modal initial)))) + 2
   \<and> step (CallCleanup 4) (step (CallCleanup 4) (snd (Modal plain_modal initial)))
       \<noteq> step (CallCleanup 4) (snd (Modal plain_modal initial))"
proof -
  let ?s = "snd (Modal plain_modal initial)"
  note c1 = cleanup_attached [OF plain_modal_mounted(1), of 4]
  have p1: "parentNode (nodes (cleanup 5 4 ?s) 5) = Some document_body"
    by (simp add: c1 plain_modal_mounted)
  note c2 = cleanup_attached [OF p1, of 4]
  have len: "length (animations (cleanup 5 4 (cleanup 5 4 ?s)))
      = length (animations (cleanup 5 4 ?s)) + 2"
    by (simp add: c2)
  have "cleanup 5 4 (cleanup 5 4 ?s) \<noteq> cleanup 5 4 ?s"
  proof
    assume "cleanup 5 4 (cleanup 5 4 ?s) = cleanup 5 4 ?s"
    then have "length (animations (cleanup 5 4 (cleanup 5 4 ?s)))
        = length (animations (cleanup 5 4 ?s))"
      by simp
    with len show False by simp
  qed
  moreover have "closing (cleanup 5 4 ?s) 5"
    using plain_modal_mounted(1) by (rule closing_cleanup)
  ultimately show ?thesis
    unfolding plain_modal_close using len by simp
qed

text \<open>The modal of above, with its overlay attached to the body.\<close>

theorem second_close_request_restarts_exit_witness:
  "parentNode (nodes (snd (Modal plain_modal initial)) 5) = Some document_body
   \<and> closing (cleanup 5 4 (snd (Modal plain_modal initial))) 5
   \<and> length (animations (cleanup 5 4 (cleanup 5 4 (snd (Modal plain_modal initial)))))
       = length (animations (snd (Modal plain_modal initial))) + 4
   \<and> nodes (cleanup 5 4 (cleanup 5 4 (snd (Modal plain_modal initial))))
       = nodes (snd (Modal plain_modal initial))
   \<and> parentNode (nodes (step (Finish (length (animations (snd (Modal plain_modal initial)))))
        (cleanup 5 4 (cleanup 5 4 (snd (Modal plain_modal initial))))) 5) = None
   \<and> cleanup 5 4 (step (Finish (length (animations (snd (Modal plain_modal initial)))))
        (cleanup 5 4 (cleanup 5 4 (snd (Modal plain_modal initial)))))
       = step (Finish (length (animations (snd (Modal plain_modal initial)))))
           (cleanup 5 4 (cleanup 5 4 (snd (Modal plain_modal initial))))"
  using plain_modal_mounted(1)
    second_close_request_restarts_exit [OF plain_modal_mounted(1), of 4]
  by blast

end
